theory Spec2Isabelle
  imports Complex_Main
begin

section \<open>JavaScript strings\<close>

text \<open>
  The message body is a JavaScript string. It is modelled as a \<open>string\<close> whose characters
  are the code units U+0000 to U+00FF, so that the non-breaking space (U+00A0, which
  \<open>trim\<close> removes) and the accented capitals (which \<open>toLowerCase\<close> maps) are covered.
\<close>

definition isWhiteSpace :: "char \<Rightarrow> bool" where
  \<comment> \<open>WhiteSpace and LineTerminator of ECMAScript, below U+0100: TAB, LF, VT, FF, CR, SP, NBSP\<close>
  "isWhiteSpace c = (let n = of_char c :: nat in (9 \<le> n \<and> n \<le> 13) \<or> n = 32 \<or> n = 160)"

definition trim :: "string \<Rightarrow> string" where
  \<comment> \<open>String.prototype.trim\<close>
  "trim s = rev (dropWhile isWhiteSpace (rev (dropWhile isWhiteSpace s)))"

definition upperCaseLetters :: "char list" where
  "upperCaseLetters = ''ABCDEFGHIJKLMNOPQRSTUVWXYZ'' @
     [CHR 0xC0, CHR 0xC1, CHR 0xC2, CHR 0xC3, CHR 0xC4, CHR 0xC5, CHR 0xC6, CHR 0xC7,
      CHR 0xC8, CHR 0xC9, CHR 0xCA, CHR 0xCB, CHR 0xCC, CHR 0xCD, CHR 0xCE, CHR 0xCF,
      CHR 0xD0, CHR 0xD1, CHR 0xD2, CHR 0xD3, CHR 0xD4, CHR 0xD5, CHR 0xD6,
      CHR 0xD8, CHR 0xD9, CHR 0xDA, CHR 0xDB, CHR 0xDC, CHR 0xDD, CHR 0xDE]"

definition lowerCaseLetters :: "char list" where
  "lowerCaseLetters = ''abcdefghijklmnopqrstuvwxyz'' @
     [CHR 0xE0, CHR 0xE1, CHR 0xE2, CHR 0xE3, CHR 0xE4, CHR 0xE5, CHR 0xE6, CHR 0xE7,
      CHR 0xE8, CHR 0xE9, CHR 0xEA, CHR 0xEB, CHR 0xEC, CHR 0xED, CHR 0xEE, CHR 0xEF,
      CHR 0xF0, CHR 0xF1, CHR 0xF2, CHR 0xF3, CHR 0xF4, CHR 0xF5, CHR 0xF6,
      CHR 0xF8, CHR 0xF9, CHR 0xFA, CHR 0xFB, CHR 0xFC, CHR 0xFD, CHR 0xFE]"

definition lowerChar :: "char \<Rightarrow> char" where
  "lowerChar c = (case map_of (zip upperCaseLetters lowerCaseLetters) c of
     Some l \<Rightarrow> l | None \<Rightarrow> c)"

definition toLowerCase :: "string \<Rightarrow> string" where
  \<comment> \<open>String.prototype.toLowerCase\<close>
  "toLowerCase s = map lowerChar s"

definition isDigit :: "char \<Rightarrow> bool" where
  \<comment> \<open>the class \<open>\d\<close> of a JavaScript regular expression: 0 to 9 only\<close>
  "isDigit c = (let n = of_char c :: nat in 48 \<le> n \<and> n \<le> 57)"

definition isLetter :: "char \<Rightarrow> bool" where
  \<comment> \<open>the class \<open>[a-z]\<close> under the flag \<open>i\<close>\<close>
  "isLetter c = (let n = of_char c :: nat in (65 \<le> n \<and> n \<le> 90) \<or> (97 \<le> n \<and> n \<le> 122))"

definition toInt :: "string \<Rightarrow> int" where
  \<comment> \<open>the value of a run of decimal digits\<close>
  "toInt s = foldl (\<lambda>a c. 10 * a + (int (of_char c) - 48)) 0 s"

fun digitsOf :: "nat \<Rightarrow> string" where
  "digitsOf n = (if n < 10 then [''0123456789'' ! n]
                 else digitsOf (n div 10) @ [''0123456789'' ! (n mod 10)])"

definition numberToString :: "int \<Rightarrow> string" where
  \<comment> \<open>what string concatenation makes of an integer\<close>
  "numberToString n = (if n < 0 then CHR ''-'' # digitsOf (nat (- n)) else digitsOf (nat n))"

definition numberRegex_test :: "string \<Rightarrow> bool" where
  \<comment> \<open>\<^verbatim>\<open>/^\d+(\.\d+)?$/.test(s)\<close>\<close>
  "numberRegex_test s =
     (takeWhile isDigit s \<noteq> [] \<and>
      (case dropWhile isDigit s of
         [] \<Rightarrow> True
       | c # fs \<Rightarrow> c = CHR ''.'' \<and> fs \<noteq> [] \<and> list_all isDigit fs))"

section \<open>Strict parsing of moment\<close>

text \<open>
  The handler parses dates with the library moment, in strict mode, against a list of
  formats. A format is the list of its tokens; every other character of a format is a
  literal. In strict mode the input is consumed from its front, token by token; a token
  whose pattern does not match at the front, a month name that is not one, characters
  left over at the end, or a month or day out of range make the parse invalid.
\<close>

datatype token = MMMM | MMM | MM | M | DD | D | YYYY | Lit char

record array =
  YEAR :: "int option"
  MONTH :: "int option"
  DATE :: "int option"

definition months :: "string list" where
  "months = [''January'', ''February'', ''March'', ''April'', ''May'', ''June'', ''July'',
             ''August'', ''September'', ''October'', ''November'', ''December'']"

definition monthsShort :: "string list" where
  "monthsShort = [''Jan'', ''Feb'', ''Mar'', ''Apr'', ''May'', ''Jun'', ''Jul'',
                  ''Aug'', ''Sep'', ''Oct'', ''Nov'', ''Dec'']"

fun monthsParse :: "string list \<Rightarrow> int \<Rightarrow> string \<Rightarrow> int option" where
  \<comment> \<open>the index of the first name whose pattern \<open>^name$\<close>, flag \<open>i\<close>, the input matches:
     the first name equal to the input, letter case ignored. The caller gives the input
     in lower case.\<close>
  "monthsParse [] i l = None"
| "monthsParse (name # names) i l =
     (if toLowerCase name = l then Some i else monthsParse names (i + 1) l)"

definition isWordChar :: "char \<Rightarrow> bool" where
  \<comment> \<open>the character class of moment's matchWord, below U+0100: the apostrophe, the
     letters a to z in either case, and U+00A0 upwards\<close>
  "isWordChar c = (c = CHR 0x27 \<or> isLetter c \<or> 160 \<le> (of_char c :: nat))"

definition matchWord :: "string \<Rightarrow> (string \<times> string) option" where
  \<comment> \<open>digits, then at least one word character: the pattern of MMMM and MMM\<close>
  "matchWord s =
     (let ds = takeWhile isDigit s; r = dropWhile isDigit s; w = takeWhile isWordChar r
      in if w = [] then None else Some (ds @ w, dropWhile isWordChar r))"

definition matchDigits :: "nat \<Rightarrow> string \<Rightarrow> (string \<times> string) option" where
  \<comment> \<open>\<open>\d{k}\<close>: match2 for MM and DD, match4 for YYYY\<close>
  "matchDigits k s =
     (if k \<le> length s \<and> list_all isDigit (take k s) then Some (take k s, drop k s) else None)"

definition match1to2 :: "string \<Rightarrow> (string \<times> string) option" where
  \<comment> \<open>\<open>\d\d?\<close>\<close>
  "match1to2 s = (case matchDigits 2 s of Some r \<Rightarrow> Some r | None \<Rightarrow> matchDigits 1 s)"

definition match1to2NoLeadingZero :: "string \<Rightarrow> (string \<times> string) option" where
  \<comment> \<open>\<open>^[1-9]\d?\<close>\<close>
  "match1to2NoLeadingZero s =
     (case s of [] \<Rightarrow> None
      | c # r \<Rightarrow> if isDigit c \<and> c \<noteq> CHR ''0'' then match1to2 s else None)"

fun getParseRegexForToken :: "bool \<Rightarrow> token \<Rightarrow> string \<Rightarrow> (string \<times> string) option" where
  \<comment> \<open>the strict pattern of a token at the front of the input: what it matched, and the
     rest. The flag tells the moment release: from 2.30 on, M and D refuse a leading zero.\<close>
  "getParseRegexForToken nz MMMM s = matchWord s"
| "getParseRegexForToken nz MMM s = matchWord s"
| "getParseRegexForToken nz MM s = matchDigits 2 s"
| "getParseRegexForToken nz M s = (if nz then match1to2NoLeadingZero s else match1to2 s)"
| "getParseRegexForToken nz DD s = matchDigits 2 s"
| "getParseRegexForToken nz D s = (if nz then match1to2NoLeadingZero s else match1to2 s)"
| "getParseRegexForToken nz YYYY s = matchDigits 4 s"
| "getParseRegexForToken nz (Lit c) s =
     (case s of [] \<Rightarrow> None | x # r \<Rightarrow> if x = c then Some ([x], r) else None)"

fun addTimeToArrayFromToken :: "token \<Rightarrow> string \<Rightarrow> array \<Rightarrow> array option" where
  \<comment> \<open>None: the flag invalidMonth\<close>
  "addTimeToArrayFromToken MMMM inp a =
     (case monthsParse months 0 (toLowerCase inp) of None \<Rightarrow> None | Some i \<Rightarrow> Some (a\<lparr>MONTH := Some i\<rparr>))"
| "addTimeToArrayFromToken MMM inp a =
     (case monthsParse monthsShort 0 (toLowerCase inp) of None \<Rightarrow> None | Some i \<Rightarrow> Some (a\<lparr>MONTH := Some i\<rparr>))"
| "addTimeToArrayFromToken MM inp a = Some (a\<lparr>MONTH := Some (toInt inp - 1)\<rparr>)"
| "addTimeToArrayFromToken M inp a = Some (a\<lparr>MONTH := Some (toInt inp - 1)\<rparr>)"
| "addTimeToArrayFromToken DD inp a = Some (a\<lparr>DATE := Some (toInt inp)\<rparr>)"
| "addTimeToArrayFromToken D inp a = Some (a\<lparr>DATE := Some (toInt inp)\<rparr>)"
| "addTimeToArrayFromToken YYYY inp a =
     Some (a\<lparr>YEAR := Some (if length inp = 2
                              then toInt inp + (if 68 < toInt inp then 1900 else 2000)
                              else toInt inp)\<rparr>)"
| "addTimeToArrayFromToken (Lit c) inp a = Some a"

fun parseTokens :: "bool \<Rightarrow> token list \<Rightarrow> string \<Rightarrow> array \<Rightarrow> array option" where
  \<comment> \<open>the loop over the tokens; at the end no character may be left over\<close>
  "parseTokens nz [] s a = (if s = [] then Some a else None)"
| "parseTokens nz (t # ts) s a =
     (case getParseRegexForToken nz t s of
        None \<Rightarrow> None
      | Some (parsedInput, rest) \<Rightarrow>
          (case addTimeToArrayFromToken t parsedInput a of
             None \<Rightarrow> None
           | Some a' \<Rightarrow> parseTokens nz ts rest a'))"

definition isLeapYear :: "int \<Rightarrow> bool" where
  "isLeapYear y = ((y mod 4 = 0 \<and> y mod 100 \<noteq> 0) \<or> y mod 400 = 0)"

definition daysInMonth :: "int \<Rightarrow> int \<Rightarrow> int" where
  "daysInMonth y m =
     (let modMonth = m mod 12; y' = y + (m - modMonth) div 12
      in if modMonth = 1 then (if isLeapYear y' then 29 else 28)
         else 31 - ((modMonth mod 7) mod 2))"

type_synonym ymd = "int \<times> int \<times> int"

definition configFromArray :: "ymd \<Rightarrow> array \<Rightarrow> ymd" where
  \<comment> \<open>the fields no token gave: those before the first one given come from the current
     date, those after it are the first month and the first day\<close>
  "configFromArray now a =
     (case now of (ny, nm, nd) \<Rightarrow>
        (case YEAR a of
           Some y \<Rightarrow> (y, case_option 0 id (MONTH a), case_option 1 id (DATE a))
         | None \<Rightarrow>
            (case MONTH a of
               Some m \<Rightarrow> (ny, m, case_option 1 id (DATE a))
             | None \<Rightarrow> (ny, nm, case_option nd id (DATE a)))))"

definition checkOverflow :: "ymd \<Rightarrow> bool" where
  \<comment> \<open>True when neither the month nor the day overflows\<close>
  "checkOverflow d =
     (case d of (y, m, dd) \<Rightarrow> 0 \<le> m \<and> m \<le> 11 \<and> 1 \<le> dd \<and> dd \<le> daysInMonth y m)"

definition emptyArray :: array where
  "emptyArray = \<lparr>YEAR = None, MONTH = None, DATE = None\<rparr>"

definition configFromStringAndFormat :: "bool \<Rightarrow> ymd \<Rightarrow> token list \<Rightarrow> string \<Rightarrow> ymd option" where
  \<comment> \<open>\<open>moment(s, format, true)\<close>: the date when it is valid\<close>
  "configFromStringAndFormat nz now fmt s =
     (case parseTokens nz fmt s emptyArray of
        None \<Rightarrow> None
      | Some a \<Rightarrow> (let d = configFromArray now a in if checkOverflow d then Some d else None))"

fun configFromStringAndArray :: "bool \<Rightarrow> ymd \<Rightarrow> token list list \<Rightarrow> string \<Rightarrow> ymd option" where
  \<comment> \<open>\<open>moment(s, formats, true)\<close>: a strict valid parse has no penalty, so the first format
     that parses wins\<close>
  "configFromStringAndArray nz now [] s = None"
| "configFromStringAndArray nz now (fmt # fmts) s =
     (case configFromStringAndFormat nz now fmt s of
        Some d \<Rightarrow> Some d
      | None \<Rightarrow> configFromStringAndArray nz now fmts s)"

definition zeroFill4 :: "int \<Rightarrow> string" where
  \<comment> \<open>the token YYYY of \<open>format\<close>\<close>
  "zeroFill4 n =
     (let ds = digitsOf (nat \<bar>n\<bar>)
      in (if n < 0 then ''-'' else '''') @ replicate (4 - length ds) CHR ''0'' @ ds)"

definition format_MMMM_YYYY :: "ymd \<Rightarrow> string" where
  \<comment> \<open>\<open>dateQuery.format('MMMM YYYY')\<close>\<close>
  "format_MMMM_YYYY d = (case d of (y, m, dd) \<Rightarrow> months ! nat m @ '' '' @ zeroFill4 y)"

section \<open>Instants\<close>

text \<open>
  An instant is a number of milliseconds on the local time line of the server, counted
  as the JavaScript constructor \<open>new Date(y, m, d)\<close> counts them from 1970-01-01; the
  offset of the server's zone, which \<open>toISOString\<close> applies, is left out.
\<close>

definition dayFromYear :: "int \<Rightarrow> int" where
  "dayFromYear y =
     365 * (y - 1970) + (y - 1969) div 4 - (y - 1901) div 100 + (y - 1601) div 400"

definition daysBeforeMonth :: "int \<Rightarrow> int \<Rightarrow> int" where
  "daysBeforeMonth y mn =
     [0, 31, 59, 90, 120, 151, 181, 212, 243, 273, 304, 334] ! nat mn
       + (if isLeapYear y \<and> 2 \<le> mn then 1 else 0)"

definition makeDay :: "int \<Rightarrow> int \<Rightarrow> int \<Rightarrow> int" where
  "makeDay y m d =
     (let ym = y + m div 12; mn = m mod 12
      in dayFromYear ym + daysBeforeMonth ym mn + d - 1)"

definition startOfDate :: "int \<Rightarrow> int \<Rightarrow> int \<Rightarrow> int" where
  \<comment> \<open>the first millisecond of a day\<close>
  "startOfDate y m d = makeDay y m d * 86400000"

definition startOf_month :: "int \<Rightarrow> int \<Rightarrow> int" where
  \<comment> \<open>\<open>moment({ year: y, month: m, day: 1 })\<close>\<close>
  "startOf_month y m = startOfDate y m 1"

definition endOf_month :: "int \<Rightarrow> int \<Rightarrow> int" where
  \<comment> \<open>\<open>moment({ year: y, month: m }).endOf('month')\<close>\<close>
  "endOf_month y m = startOfDate y (m + 1) 1 - 1"

section \<open>Numbers, the datastore and the environment\<close>

text \<open>
  The handler parses numbers, adds them and prints them with two decimals. It is written
  here over a record of these operations; \<open>ieee\<close> below is the record of the JavaScript
  operations, on which the theorems about amounts and totals are stated.
\<close>

record 'n number =
  parseFloat :: "string \<Rightarrow> 'n"
  num_zero :: "'n"
  num_add :: "'n \<Rightarrow> 'n \<Rightarrow> 'n"
  toFixed :: "'n \<Rightarrow> nat \<Rightarrow> string"

datatype 'n query =
    SelectAmount
      \<comment> \<open>\<open>from('cash_entries').select('amount')\<close>\<close>
  | SelectAmountBetween int int
      \<comment> \<open>the same with \<open>.gte('created_at', startDate).lte('created_at', endDate)\<close>\<close>
  | Insert "string option" 'n
      \<comment> \<open>\<open>from('cash_entries').insert([{ phone, amount }])\<close>\<close>

datatype response =
    Rejected
      \<comment> \<open>the awaited promise rejects\<close>
  | Resolved "string option" "string list option"
      \<comment> \<open>\<open>{ data, error }\<close>: the error if any, and the rows, each the text of its amount as
         \<open>parseFloat\<close> reads it\<close>

datatype exn = TypeError | Rejection

datatype log =
    Received "string option" string
  | DatabaseError string
  | ServerError exn

record request =
  Body :: "string option"
  From :: "string option"

record 'n env =
  number :: "'n number"
  noLeadingZero :: bool
      \<comment> \<open>the release of moment: whether M and D refuse a leading zero in strict mode\<close>
  clock :: ymd
      \<comment> \<open>the year, the month (from 0) and the day that \<open>new Date()\<close> reads\<close>
  supabase :: "'n query \<Rightarrow> response"

record 'n outcome =
  replies :: "string list"
  queries :: "'n query list"
  logs :: "log list"

definition selects :: "'n query \<Rightarrow> real \<Rightarrow> bool" where
  \<comment> \<open>the rows a read returns, by their \<open>created_at\<close> in milliseconds (the datastore keeps
     fractions of a millisecond): \<open>gte\<close> and \<open>lte\<close> are both inclusive\<close>
  "selects q t =
     (case q of
        SelectAmount \<Rightarrow> True
      | SelectAmountBetween startDate endDate \<Rightarrow> of_int startDate \<le> t \<and> t \<le> of_int endDate
      | Insert phone amount \<Rightarrow> False)"

section \<open>IEEE doubles\<close>

text \<open>
  The numbers the handler runs on. A JavaScript number is NaN, one of the two infinities,
  or a finite double, kept here as the real it denotes (the sign of zero is not kept: the
  handler never prints or stores a negative zero). Arithmetic is exact arithmetic followed
  by rounding to the nearest double, ties to the even significand.
\<close>

datatype jsnumber = NaN | PosInfinity | NegInfinity | Finite real

fun bitLength :: "nat \<Rightarrow> nat" where
  "bitLength n = (if n = 0 then 0 else Suc (bitLength (n div 2)))"

definition exponent :: "real \<Rightarrow> int" where
  \<comment> \<open>for \<open>a > 0\<close>, the \<open>e\<close> with \<open>2 ^ e \<le> a < 2 ^ (e + 1)\<close>\<close>
  "exponent a =
     (if 1 \<le> a then int (bitLength (nat \<lfloor>a\<rfloor>)) - 1
      else - int (bitLength (nat (\<lceil>1 / a\<rceil> - 1))))"

definition quantum :: "real \<Rightarrow> int" where
  \<comment> \<open>the doubles around \<open>x\<close> are the multiples of \<open>2 powi quantum x\<close>: 53 significant
     bits, and the smallest exponent -1022 for the subnormal ones\<close>
  "quantum x = max (exponent \<bar>x\<bar>) (- 1022) - 52"

definition roundHalfEven :: "real \<Rightarrow> int" where
  "roundHalfEven r =
     (let f = \<lfloor>r\<rfloor>; d = r - of_int f
      in if d < 1 / 2 then f else if 1 / 2 < d then f + 1 else if even f then f else f + 1)"

definition roundDouble :: "real \<Rightarrow> jsnumber" where
  \<comment> \<open>the Number value for a real: the nearest double, an infinity from \<open>2 ^ 1024\<close> on\<close>
  "roundDouble x =
     (if x = 0 then Finite 0
      else
        (let q = quantum x;
             v = of_int (roundHalfEven (\<bar>x\<bar> / 2 powi q)) * 2 powi q
         in if 2 ^ 1024 \<le> v then (if x < 0 then NegInfinity else PosInfinity)
            else Finite (if x < 0 then - v else v)))"



definition exponentPart :: "string \<Rightarrow> int" where
  \<comment> \<open>the value of an ExponentPart at the front of the input, 0 when there is none\<close>
  "exponentPart r =
     (case r of
        [] \<Rightarrow> 0
      | c # r1 \<Rightarrow>
          if c = CHR ''e'' \<or> c = CHR ''E'' then
            (case r1 of
               [] \<Rightarrow> 0
             | d # r2 \<Rightarrow>
                 if d = CHR ''-'' then - toInt (takeWhile isDigit r2)
                 else if d = CHR ''+'' then toInt (takeWhile isDigit r2)
                 else toInt (takeWhile isDigit r1))
          else 0)"

definition strUnsignedDecimalLiteral :: "string \<Rightarrow> jsnumber" where
  \<comment> \<open>the longest prefix that is a StrUnsignedDecimalLiteral: \<open>Infinity\<close>, or digits with
     an optional point, fraction and exponent; not a number when there is none\<close>
  "strUnsignedDecimalLiteral u =
     (if take 8 u = ''Infinity'' then PosInfinity
      else
        (let ip = takeWhile isDigit u;
             r1 = dropWhile isDigit u;
             fp = (case r1 of [] \<Rightarrow> [] | c # fs \<Rightarrow> if c = CHR ''.'' then takeWhile isDigit fs else []);
             r2 = (case r1 of [] \<Rightarrow> [] | c # fs \<Rightarrow> if c = CHR ''.'' then dropWhile isDigit fs else r1)
         in if ip = [] \<and> fp = [] then NaN
            else roundDouble ((of_int (toInt ip) + of_int (toInt fp) / 10 ^ length fp)
                                * 10 powi exponentPart r2)))"

fun negate :: "jsnumber \<Rightarrow> jsnumber" where
  "negate NaN = NaN"
| "negate PosInfinity = NegInfinity"
| "negate NegInfinity = PosInfinity"
| "negate (Finite x) = Finite (- x)"

definition js_parseFloat :: "string \<Rightarrow> jsnumber" where
  \<comment> \<open>\<open>parseFloat\<close>, of the text of its argument: leading white space, a sign, the literal\<close>
  "js_parseFloat s =
     (case dropWhile isWhiteSpace s of
        [] \<Rightarrow> NaN
      | c # u \<Rightarrow>
          if c = CHR ''-'' then negate (strUnsignedDecimalLiteral u)
          else if c = CHR ''+'' then strUnsignedDecimalLiteral u
          else strUnsignedDecimalLiteral (c # u))"

fun js_add :: "jsnumber \<Rightarrow> jsnumber \<Rightarrow> jsnumber" where
  \<comment> \<open>\<open>x + y\<close> on numbers\<close>
  "js_add (Finite a) (Finite b) = roundDouble (a + b)"
| "js_add NaN y = NaN"
| "js_add x NaN = NaN"
| "js_add PosInfinity NegInfinity = NaN"
| "js_add NegInfinity PosInfinity = NaN"
| "js_add PosInfinity y = PosInfinity"
| "js_add x PosInfinity = PosInfinity"
| "js_add NegInfinity y = NegInfinity"
| "js_add x NegInfinity = NegInfinity"

fun shortest :: "real \<Rightarrow> nat \<Rightarrow> nat \<Rightarrow> nat \<Rightarrow> nat \<times> nat" where
  \<comment> \<open>the fewest digits \<open>k\<close>, from the given one on, and the \<open>s\<close> of \<open>k\<close> digits nearest to
     \<open>x\<close> such that \<open>s * 10 ^ (n - k)\<close> reads back as \<open>x\<close>; \<open>n\<close> is the number of digits of \<open>x\<close>\<close>
  "shortest x n 0 k = (nat \<lfloor>x\<rfloor>, n)"
| "shortest x n (Suc fuel) k =
     (let s = roundHalfEven (x / 10 ^ (n - k))
      in if s < 10 ^ k \<and> roundDouble (of_int s * 10 ^ (n - k)) = Finite x then (nat s, k)
         else shortest x n fuel (Suc k))"

definition toString_exponential :: "real \<Rightarrow> string" where
  \<comment> \<open>Number::toString of a double from \<open>10 ^ 21\<close> on: the shortest digits, in exponent
     notation\<close>
  "toString_exponential x =
     (let n = length (digitsOf (nat \<lfloor>x\<rfloor>)) in
      case shortest x n (n - 1) 1 of
        (s, k) \<Rightarrow>
          (if k = 1 then digitsOf s else take 1 (digitsOf s) @ ''.'' @ drop 1 (digitsOf s))
            @ ''e+'' @ digitsOf (n - 1))"

definition js_toFixed :: "jsnumber \<Rightarrow> nat \<Rightarrow> string" where
  \<comment> \<open>Number.prototype.toFixed: the text of a number that is not finite; Number::toString
     from \<open>10 ^ 21\<close> on; else the nearest multiple of \<open>10 ^ - f\<close>, the larger one of two\<close>
  "js_toFixed v f =
     (case v of
        NaN \<Rightarrow> ''NaN''
      | PosInfinity \<Rightarrow> ''Infinity''
      | NegInfinity \<Rightarrow> ''-Infinity''
      | Finite x \<Rightarrow>
          (if x < 0 then ''-'' else []) @
          (if 10 ^ 21 \<le> \<bar>x\<bar> then toString_exponential \<bar>x\<bar>
           else
             (let n = nat \<lfloor>\<bar>x\<bar> * 10 ^ f + 1 / 2\<rfloor>;
                  fp = digitsOf (n mod 10 ^ f)
              in digitsOf (n div 10 ^ f) @
                 (if f = 0 then [] else ''.'' @ replicate (f - length fp) CHR ''0'' @ fp))))"

definition ieee :: "jsnumber number" where
  \<comment> \<open>the numbers of JavaScript\<close>
  "ieee = \<lparr>parseFloat = js_parseFloat, num_zero = Finite 0, num_add = js_add, toFixed = js_toFixed\<rparr>"

section \<open>The handler of POST /sms\<close>

definition formats :: "token list list" where
  \<comment> \<open>\<open>['MMMM YYYY', 'MMM YYYY', 'MM/YYYY', 'M/YYYY', 'MM/DD/YYYY', 'M/D/YYYY']\<close>\<close>
  "formats =
     [[MMMM, Lit CHR '' '', YYYY], [MMM, Lit CHR '' '', YYYY],
      [MM, Lit CHR ''/'', YYYY], [M, Lit CHR ''/'', YYYY],
      [MM, Lit CHR ''/'', DD, Lit CHR ''/'', YYYY], [M, Lit CHR ''/'', D, Lit CHR ''/'', YYYY]]"

definition monthNameFormats :: "token list list" where
  \<comment> \<open>\<open>['MMMM YYYY', 'MMM YYYY']\<close>\<close>
  "monthNameFormats = [[MMMM, Lit CHR '' '', YYYY], [MMM, Lit CHR '' '', YYYY]]"

definition dateQuery :: "bool \<Rightarrow> ymd \<Rightarrow> string \<Rightarrow> ymd option" where
  \<comment> \<open>the two parsing attempts; \<open>fst now\<close> is \<open>moment().year()\<close>\<close>
  "dateQuery nz now incomingMsg =
     (case configFromStringAndArray nz now formats incomingMsg of
        Some d \<Rightarrow> Some d
      | None \<Rightarrow>
          configFromStringAndArray nz now monthNameFormats
            (incomingMsg @ '' '' @ numberToString (fst now)))"

definition sumAmounts :: "'n number \<Rightarrow> string list \<Rightarrow> 'n" where
  \<comment> \<open>\<open>data.reduce((sum, entry) => sum + parseFloat(entry.amount), 0)\<close>\<close>
  "sumAmounts num data = foldl (\<lambda>sum entry. num_add num sum (parseFloat num entry)) (num_zero num) data"

definition retrieveError :: string where
  "retrieveError = ''An error occurred while retrieving data. Please try again later.''"

definition saveError :: string where
  "saveError = ''An error occurred while saving your entry. Please try again later.''"

definition recorded :: string where
  "recorded = ''Your cash entry has been recorded.''"

definition invalidInput :: string where
  \<open>invalidInput =
     ''Invalid input. Please send a number, a valid date (e.g., "March 2023" or "03/2023"), or "total".''\<close>

definition unexpectedError :: string where
  "unexpectedError = ''An unexpected error occurred. Please try again later.''"

definition post_sms_try :: "'n env \<Rightarrow> request \<Rightarrow> 'n outcome \<times> exn option" where
  \<comment> \<open>the body of the \<open>try\<close>: what it did, and the exception it threw if any\<close>
  "post_sms_try e req =
     (case Body req of
        None \<Rightarrow> (\<lparr>replies = [], queries = [], logs = []\<rparr>, Some TypeError)
      | Some b \<Rightarrow>
         (let incomingMsg = trim b;
              fromNumber = From req;
              received = [Received fromNumber incomingMsg]
          in
          if toLowerCase incomingMsg = ''total'' then
            (let q = SelectAmount in
             case supabase e q of
               Rejected \<Rightarrow> (\<lparr>replies = [], queries = [q], logs = received\<rparr>, Some Rejection)
             | Resolved (Some error) data \<Rightarrow>
                 (\<lparr>replies = [retrieveError], queries = [q],
                   logs = received @ [DatabaseError error]\<rparr>, None)
             | Resolved None None \<Rightarrow>
                 (\<lparr>replies = [], queries = [q], logs = received\<rparr>, Some TypeError)
             | Resolved None (Some data) \<Rightarrow>
                 (let total = sumAmounts (number e) data in
                  (\<lparr>replies = [''Total cash collected: $'' @ toFixed (number e) total 2],
                    queries = [q], logs = received\<rparr>, None)))
          else if numberRegex_test incomingMsg then
            (let amount = parseFloat (number e) incomingMsg;
                 q = Insert fromNumber amount in
             case supabase e q of
               Rejected \<Rightarrow> (\<lparr>replies = [], queries = [q], logs = received\<rparr>, Some Rejection)
             | Resolved (Some error) data \<Rightarrow>
                 (\<lparr>replies = [saveError], queries = [q],
                   logs = received @ [DatabaseError error]\<rparr>, None)
             | Resolved None data \<Rightarrow>
                 (\<lparr>replies = [recorded], queries = [q], logs = received\<rparr>, None))
          else
            (case dateQuery (noLeadingZero e) (clock e) incomingMsg of
               Some d \<Rightarrow>
                 (case d of (queryYear, queryMonth, day) \<Rightarrow>
                    (let startDate = startOf_month queryYear queryMonth;
                         endDate = endOf_month queryYear queryMonth;
                         q = SelectAmountBetween startDate endDate in
                     case supabase e q of
                       Rejected \<Rightarrow>
                         (\<lparr>replies = [], queries = [q], logs = received\<rparr>, Some Rejection)
                     | Resolved (Some error) data \<Rightarrow>
                         (\<lparr>replies = [retrieveError], queries = [q],
                           logs = received @ [DatabaseError error]\<rparr>, None)
                     | Resolved None None \<Rightarrow>
                         (\<lparr>replies = [], queries = [q], logs = received\<rparr>, Some TypeError)
                     | Resolved None (Some data) \<Rightarrow>
                         (let monthlyTotal = sumAmounts (number e) data in
                          (\<lparr>replies = [''Total cash for '' @ format_MMMM_YYYY d @ '': $''
                                         @ toFixed (number e) monthlyTotal 2],
                            queries = [q], logs = received\<rparr>, None))))
             | None \<Rightarrow> (\<lparr>replies = [invalidInput], queries = [], logs = received\<rparr>, None))))"

definition post_sms :: "'n env \<Rightarrow> request \<Rightarrow> 'n outcome \<times> exn option" where
  \<comment> \<open>the handler: the \<open>try\<close> and its \<open>catch\<close>. The second component is the exception
     that leaves the handler.\<close>
  "post_sms e req =
     (case post_sms_try e req of
        (out, None) \<Rightarrow> (out, None)
      | (out, Some err) \<Rightarrow>
          (out\<lparr>logs := logs out @ [ServerError err],
                replies := replies out @ [unexpectedError]\<rparr>, None))"

datatype 'n intent = Total | CashEntry 'n | MonthQuery int int string | Invalid

definition classify :: "'n number \<Rightarrow> bool \<Rightarrow> ymd \<Rightarrow> string \<Rightarrow> 'n intent" where
  \<comment> \<open>the decisions of the handler on the body of a message, in their order; a month
     query carries its two instants and the label of the reply\<close>
  "classify num nz now b =
     (let incomingMsg = trim b in
      if toLowerCase incomingMsg = ''total'' then Total
      else if numberRegex_test incomingMsg then CashEntry (parseFloat num incomingMsg)
      else
        (case dateQuery nz now incomingMsg of
           Some d \<Rightarrow>
             (case d of (queryYear, queryMonth, day) \<Rightarrow>
                MonthQuery (startOf_month queryYear queryMonth) (endOf_month queryYear queryMonth)
                  (format_MMMM_YYYY d))
         | None \<Rightarrow> Invalid))"

section \<open>The daily prompt\<close>

record message =
  msg_body :: string
  msg_from :: "string option"
  msg_to :: string

record trigger_env =
  USER_PHONE_NUMBER :: "string option"
  TWILIO_PHONE_NUMBER :: "string option"
  messages_create :: "message \<Rightarrow> string option"
    \<comment> \<open>the identifier of the message sent, or None when the promise rejects\<close>

datatype trigger_log = ScheduledSent string | ErrorSending | NotConfigured

record http_response =
  status :: nat
  sent :: string

definition prompt :: "trigger_env \<Rightarrow> string \<Rightarrow> message" where
  "prompt t userPhoneNumber =
     \<lparr>msg_body = ''How much cash did you make today?'',
      msg_from = TWILIO_PHONE_NUMBER t, msg_to = userPhoneNumber\<rparr>"

definition falsy :: "string option \<Rightarrow> bool" where
  \<comment> \<open>\<open>!userPhoneNumber\<close>: not set, or empty\<close>
  "falsy v = (case v of None \<Rightarrow> True | Some s \<Rightarrow> s = [])"

definition get_send_sms :: "trigger_env \<Rightarrow> http_response \<times> message list \<times> trigger_log list" where
  \<comment> \<open>GET /send-sms: the response, the messages handed to the provider, the log\<close>
  "get_send_sms t =
     (if falsy (USER_PHONE_NUMBER t)
      then (\<lparr>status = 500, sent = ''User phone number not configured.''\<rparr>, [], [])
      else
        (let m = prompt t (the (USER_PHONE_NUMBER t)) in
         case messages_create t m of
           Some sid \<Rightarrow> (\<lparr>status = 200, sent = ''SMS sent.''\<rparr>, [m], [ScheduledSent sid])
         | None \<Rightarrow> (\<lparr>status = 500, sent = ''Error sending SMS.''\<rparr>, [m], [ErrorSending])))"

definition cron_callback :: "trigger_env \<Rightarrow> exn option \<times> message list \<times> trigger_log list" where
  \<comment> \<open>the callback of \<open>cron.schedule\<close> in the variant that schedules in process: the
     exception it ends with if any, the messages handed to the provider, the log\<close>
  "cron_callback t =
     (if falsy (USER_PHONE_NUMBER t)
      then (None, [], [NotConfigured])
      else
        (let m = prompt t (the (USER_PHONE_NUMBER t)) in
         case messages_create t m of
           Some sid \<Rightarrow> (None, [m], [ScheduledSent sid])
         | None \<Rightarrow> (None, [m], [ErrorSending])))"

section \<open>An environment for the examples\<close>

text \<open>
  The examples run the handler on the numbers of JavaScript, under the later release of
  the parser and a clock in June 2024, with a datastore that gives the same answer to
  every request.
\<close>

definition exampleEnv :: "response \<Rightarrow> jsnumber env" where
  "exampleEnv r =
     \<lparr>number = ieee, noLeadingZero = True, clock = (2024, 5, 15), supabase = (\<lambda>q. r)\<rparr>"

definition exampleTrigger :: "string option \<Rightarrow> trigger_env" where
  \<comment> \<open>a configured destination, and a provider that gives the same answer to every message\<close>
  "exampleTrigger r =
     \<lparr>USER_PHONE_NUMBER = Some ''+15550100'', TWILIO_PHONE_NUMBER = Some ''+15550199'',
      messages_create = (\<lambda>m. r)\<rparr>"

section \<open>Lemmas on strings\<close>

declare digitsOf.simps [simp del]

lemma digitsOf_eval:
  "n < 10 \<Longrightarrow> digitsOf n = [''0123456789'' ! n]"
  "10 \<le> n \<Longrightarrow> digitsOf n = digitsOf (n div 10) @ [''0123456789'' ! (n mod 10)]"
  by (simp_all add: digitsOf.simps [of n])

lemma dropWhile_all: "list_all P xs \<Longrightarrow> dropWhile P (xs @ ys) = dropWhile P ys"
  by (simp add: dropWhile_append2 list_all_iff)

lemma trim_append_whitespace:
  assumes pre: "list_all isWhiteSpace pre" and post: "list_all isWhiteSpace post"
  shows "trim (pre @ s @ post) = trim s"
proof -
  have 1: "dropWhile isWhiteSpace (pre @ s @ post) = dropWhile isWhiteSpace (s @ post)"
    using pre by (rule dropWhile_all)
  have 2: "dropWhile isWhiteSpace (rev (dropWhile isWhiteSpace (s @ post)))
         = dropWhile isWhiteSpace (rev (dropWhile isWhiteSpace s))"
  proof (cases "list_all isWhiteSpace s")
    case True
    have a: "dropWhile isWhiteSpace (s @ post) = []"
      unfolding dropWhile_eq_Nil_conv using True post by (auto simp: list_all_iff)
    have b: "dropWhile isWhiteSpace s = []"
      unfolding dropWhile_eq_Nil_conv using True by (auto simp: list_all_iff)
    show ?thesis unfolding a b ..
  next
    case False
    then obtain x where "x \<in> set s" "\<not> isWhiteSpace x" by (auto simp: list_all_iff)
    then have a: "dropWhile isWhiteSpace (s @ post) = dropWhile isWhiteSpace s @ post"
      by (simp add: dropWhile_append1)
    have "list_all isWhiteSpace (rev post)" using post by simp
    then show ?thesis unfolding a rev_append by (rule dropWhile_all)
  qed
  show ?thesis unfolding trim_def 1 2 ..
qed

lemma lowerChar_eval:
  "lowerChar c =
     (if c = CHR ''A'' then CHR ''a'' else if c = CHR ''B'' then CHR ''b'' else if c = CHR
        ''C'' then CHR ''c'' else if c = CHR ''D'' then CHR ''d'' else if c = CHR ''E'' then CHR
        ''e'' else if c = CHR ''F'' then CHR ''f'' else if c = CHR ''G'' then CHR ''g'' else if
        c = CHR ''H'' then CHR ''h'' else if c = CHR ''I'' then CHR ''i'' else if c = CHR ''J''
        then CHR ''j'' else if c = CHR ''K'' then CHR ''k'' else if c = CHR ''L'' then CHR ''l''
        else if c = CHR ''M'' then CHR ''m'' else if c = CHR ''N'' then CHR ''n'' else if c =
        CHR ''O'' then CHR ''o'' else if c = CHR ''P'' then CHR ''p'' else if c = CHR ''Q'' then
        CHR ''q'' else if c = CHR ''R'' then CHR ''r'' else if c = CHR ''S'' then CHR ''s'' else
        if c = CHR ''T'' then CHR ''t'' else if c = CHR ''U'' then CHR ''u'' else if c = CHR
        ''V'' then CHR ''v'' else if c = CHR ''W'' then CHR ''w'' else if c = CHR ''X'' then CHR
        ''x'' else if c = CHR ''Y'' then CHR ''y'' else if c = CHR ''Z'' then CHR ''z'' else if
        c = CHR 0xC0 then CHR 0xE0 else if c = CHR 0xC1 then CHR 0xE1 else if c = CHR 0xC2 then
        CHR 0xE2 else if c = CHR 0xC3 then CHR 0xE3 else if c = CHR 0xC4 then CHR 0xE4 else if c
        = CHR 0xC5 then CHR 0xE5 else if c = CHR 0xC6 then CHR 0xE6 else if c = CHR 0xC7 then
        CHR 0xE7 else if c = CHR 0xC8 then CHR 0xE8 else if c = CHR 0xC9 then CHR 0xE9 else if c
        = CHR 0xCA then CHR 0xEA else if c = CHR 0xCB then CHR 0xEB else if c = CHR 0xCC then
        CHR 0xEC else if c = CHR 0xCD then CHR 0xED else if c = CHR 0xCE then CHR 0xEE else if c
        = CHR 0xCF then CHR 0xEF else if c = CHR 0xD0 then CHR 0xF0 else if c = CHR 0xD1 then
        CHR 0xF1 else if c = CHR 0xD2 then CHR 0xF2 else if c = CHR 0xD3 then CHR 0xF3 else if c
        = CHR 0xD4 then CHR 0xF4 else if c = CHR 0xD5 then CHR 0xF5 else if c = CHR 0xD6 then
        CHR 0xF6 else if c = CHR 0xD8 then CHR 0xF8 else if c = CHR 0xD9 then CHR 0xF9 else if c
        = CHR 0xDA then CHR 0xFA else if c = CHR 0xDB then CHR 0xFB else if c = CHR 0xDC then
        CHR 0xFC else if c = CHR 0xDD then CHR 0xFD else if c = CHR 0xDE then CHR 0xFE else c)"
  by (simp add: lowerChar_def upperCaseLetters_def lowerCaseLetters_def)

lemma monthsParse_months:
  "monthsParse months 0 l =
     (if l = ''january'' then Some 0 else if l = ''february'' then Some 1 else if l =
      ''march'' then Some 2 else if l = ''april'' then Some 3 else if l = ''may'' then
      Some 4 else if l = ''june'' then Some 5 else if l = ''july'' then Some 6 else if l =
      ''august'' then Some 7 else if l = ''september'' then Some 8 else if l = ''october''
      then Some 9 else if l = ''november'' then Some 10 else if l = ''december'' then Some
      11 else None)"
  by (simp add: months_def toLowerCase_def lowerChar_eval)

lemma monthsParse_monthsShort:
  "monthsParse monthsShort 0 l =
     (if l = ''jan'' then Some 0 else if l = ''feb'' then Some 1 else if l = ''mar'' then
      Some 2 else if l = ''apr'' then Some 3 else if l = ''may'' then Some 4 else if l =
      ''jun'' then Some 5 else if l = ''jul'' then Some 6 else if l = ''aug'' then Some 7
      else if l = ''sep'' then Some 8 else if l = ''oct'' then Some 9 else if l = ''nov''
      then Some 10 else if l = ''dec'' then Some 11 else None)"
  by (simp add: monthsShort_def toLowerCase_def lowerChar_eval)

lemma lowerChar_t: "lowerChar c = CHR ''t'' \<Longrightarrow> c = CHR ''t'' \<or> c = CHR ''T''"
  by (simp add: lowerChar_def upperCaseLetters_def lowerCaseLetters_def split: if_splits)

lemma numeric_not_total: "numberRegex_test s \<Longrightarrow> toLowerCase s \<noteq> ''total''"
proof (cases s)
  case Nil
  then show ?thesis by (simp add: toLowerCase_def)
next
  case (Cons c cs)
  assume "numberRegex_test s"
  then have "isDigit c" using Cons by (auto simp: numberRegex_test_def split: if_splits)
  then have "c \<noteq> CHR ''t'' \<and> c \<noteq> CHR ''T''" by (auto simp: isDigit_def)
  then show ?thesis using Cons lowerChar_t[of c] by (auto simp: toLowerCase_def)
qed

lemmas string_simps = trim_def toLowerCase_def lowerChar_eval isWhiteSpace_def isDigit_def
  isLetter_def numberRegex_test_def toInt_def

section \<open>Lemmas on the calendar\<close>

lemma div_pred:
  fixes x k :: int
  assumes k: "0 < k"
  shows "x div k = (x - 1) div k + (if x mod k = 0 then 1 else 0)"
proof (cases "x mod k = 0")
  case True
  have "x = k * (x div k)" using True mult_div_mod_eq [of k x] by simp
  then have "x - 1 = k * (x div k - 1) + (k - 1)" by (simp add: algebra_simps)
  then have "(x - 1) div k = x div k - 1"
    using k int_div_pos_eq [of "x - 1" k "x div k - 1" "k - 1"] by simp
  then show ?thesis using True by simp
next
  case False
  have "0 \<le> x mod k" "x mod k < k" using k by simp_all
  then have r: "0 \<le> x mod k - 1" "x mod k - 1 < k" using False by simp_all
  have "x - 1 = k * (x div k) + (x mod k - 1)" using mult_div_mod_eq [of k x] by simp
  then have "(x - 1) div k = x div k"
    using r int_div_pos_eq [of "x - 1" k "x div k" "x mod k - 1"] by simp
  then show ?thesis using False by simp
qed

lemma mod_shift: "((y::int) - k * c) mod k = y mod k"
proof -
  have "(y + k * (- c)) mod k = y mod k" by (rule mod_mult_self2)
  then show ?thesis by simp
qed

lemma dayFromYear_Suc: "dayFromYear (y + 1) = dayFromYear y + (if isLeapYear y then 366 else 365)"
proof -
  have m4: "(y - 1968) mod 4 = y mod 4" using mod_shift [of y 4 492] by simp
  have m100: "(y - 1900) mod 100 = y mod 100" using mod_shift [of y 100 19] by simp
  have m400: "(y - 1600) mod 400 = y mod 400" using mod_shift [of y 400 4] by simp
  have d4: "(y - 1968) div 4 = (y - 1969) div 4 + (if y mod 4 = 0 then 1 else 0)"
    using div_pred [of 4 "y - 1968"] by (simp add: m4)
  have d100: "(y - 1900) div 100 = (y - 1901) div 100 + (if y mod 100 = 0 then 1 else 0)"
    using div_pred [of 100 "y - 1900"] by (simp add: m100)
  have d400: "(y - 1600) div 400 = (y - 1601) div 400 + (if y mod 400 = 0 then 1 else 0)"
    using div_pred [of 400 "y - 1600"] by (simp add: m400)
  have i1: "y mod 400 = 0 \<Longrightarrow> y mod 100 = 0"
    using dvd_trans [of 100 400 y] by (simp add: mod_eq_0_iff_dvd)
  have i2: "y mod 100 = 0 \<Longrightarrow> y mod 4 = 0"
    using dvd_trans [of 4 100 y] by (simp add: mod_eq_0_iff_dvd)
  have e: "dayFromYear (y + 1) = 365 * (y - 1969) + (y - 1968) div 4 - (y - 1900) div 100 + (y - 1600) div 400"
    by (simp add: dayFromYear_def)
  show ?thesis
    unfolding e d4 d100 d400 using i1 i2 by (auto simp: dayFromYear_def isLeapYear_def)
qed

lemma month_cases: "0 \<le> m \<Longrightarrow> m \<le> 11 \<Longrightarrow>
  m = 0 \<or> m = 1 \<or> m = 2 \<or> m = 3 \<or> m = 4 \<or> m = 5 \<or> m = 6 \<or> m = 7 \<or> m = 8 \<or> m = 9 \<or> m = 10 \<or> m = (11::int)"
  by arith

lemma makeDay_next_month:
  assumes "0 \<le> m" "m \<le> 11"
  shows "makeDay y (m + 1) 1 = makeDay y m 1 + daysInMonth y m"
  using month_cases [OF assms]
  by (elim disjE) (simp_all add: makeDay_def daysBeforeMonth_def daysInMonth_def dayFromYear_Suc)

lemma startOfDate_next_month:
  assumes "0 \<le> m" "m \<le> 11"
  shows "startOfDate y (m + 1) 1 = startOfDate y m 1 + daysInMonth y m * 86400000"
  unfolding startOfDate_def makeDay_next_month [OF assms] by (simp add: algebra_simps)

section \<open>Lemmas on parsing\<close>

lemmas parse_simps = dateQuery_def formats_def monthNameFormats_def configFromStringAndFormat_def
  matchWord_def matchDigits_def match1to2_def match1to2NoLeadingZero_def isWordChar_def
  emptyArray_def configFromArray_def checkOverflow_def daysInMonth_def isLeapYear_def
  monthsParse_months monthsParse_monthsShort numberToString_def digitsOf_eval

lemmas instant_simps = startOf_month_def endOf_month_def startOfDate_def makeDay_def
  dayFromYear_def daysBeforeMonth_def isLeapYear_def

lemma configFromStringAndArray_valid:
  "configFromStringAndArray nz now fmts s = Some d \<Longrightarrow> checkOverflow d"
  by (induction fmts) (auto simp: configFromStringAndFormat_def Let_def split: option.splits if_splits)

lemma dateQuery_valid: "dateQuery nz now s = Some d \<Longrightarrow> checkOverflow d"
  by (auto simp: dateQuery_def split: option.splits dest: configFromStringAndArray_valid)

lemma addTimeToArrayFromToken_year:
  "addTimeToArrayFromToken t inp a = Some a' \<Longrightarrow> t = YYYY \<or> YEAR a \<noteq> None \<Longrightarrow> YEAR a' \<noteq> None"
  by (cases t) (auto split: option.splits)

lemma parseTokens_year:
  "parseTokens nz ts s a = Some a' \<Longrightarrow> YYYY \<in> set ts \<or> YEAR a \<noteq> None \<Longrightarrow> YEAR a' \<noteq> None"
proof (induction ts arbitrary: s a)
  case Nil
  then show ?case by (simp split: if_splits)
next
  case (Cons t ts)
  from Cons.prems(1) obtain inp rest a1 where
    m: "getParseRegexForToken nz t s = Some (inp, rest)"
    and u: "addTimeToArrayFromToken t inp a = Some a1"
    and r: "parseTokens nz ts rest a1 = Some a'"
    by (auto split: option.splits)
  show ?case
  proof (cases "t = YYYY \<or> YEAR a \<noteq> None")
    case True
    then have "YEAR a1 \<noteq> None" using u by (rule addTimeToArrayFromToken_year [rotated])
    then show ?thesis using Cons.IH [OF r] by simp
  next
    case False
    then have "YYYY \<in> set ts" using Cons.prems(2) by auto
    then show ?thesis using Cons.IH [OF r] by simp
  qed
qed

lemma configFromArray_year: "YEAR a \<noteq> None \<Longrightarrow> configFromArray now a = configFromArray now' a"
  by (cases now, cases now') (auto simp: configFromArray_def)

lemma configFromStringAndFormat_clock:
  "YYYY \<in> set fmt \<Longrightarrow> configFromStringAndFormat nz now fmt s = configFromStringAndFormat nz now' fmt s"
proof (cases "parseTokens nz fmt s emptyArray")
  case None
  then show ?thesis by (simp add: configFromStringAndFormat_def)
next
  case (Some a)
  assume "YYYY \<in> set fmt"
  then have "YEAR a \<noteq> None" using parseTokens_year [OF Some] by simp
  then show ?thesis using Some configFromArray_year [of a now now']
    by (simp add: configFromStringAndFormat_def)
qed

lemma configFromStringAndArray_clock:
  "list_all (\<lambda>fmt. YYYY \<in> set fmt) fmts \<Longrightarrow>
     configFromStringAndArray nz now fmts s = configFromStringAndArray nz now' fmts s"
proof (induction fmts)
  case Nil
  show ?case by simp
next
  case (Cons fmt fmts)
  then have 1: "configFromStringAndFormat nz now fmt s = configFromStringAndFormat nz now' fmt s"
    and 2: "configFromStringAndArray nz now fmts s = configFromStringAndArray nz now' fmts s"
    by (simp_all add: configFromStringAndFormat_clock)
  show ?case unfolding configFromStringAndArray.simps 1 2 ..
qed

lemma dateQuery_clock: "fst now = fst now' \<Longrightarrow> dateQuery nz now s = dateQuery nz now' s"
proof -
  assume y: "fst now = fst now'"
  have 1: "list_all (\<lambda>fmt. YYYY \<in> set fmt) formats" by (simp add: formats_def)
  have 2: "list_all (\<lambda>fmt. YYYY \<in> set fmt) monthNameFormats" by (simp add: monthNameFormats_def)
  show ?thesis
    unfolding dateQuery_def y
      configFromStringAndArray_clock [OF 1, of nz now s now']
      configFromStringAndArray_clock [OF 2, of nz now _ now']
    ..
qed

lemma queries_by_intent:
  "queries (fst (post_sms e req)) =
     (case Body req of
        None \<Rightarrow> []
      | Some b \<Rightarrow>
          (case classify (number e) (noLeadingZero e) (clock e) b of
             Total \<Rightarrow> [SelectAmount]
           | CashEntry amount \<Rightarrow> [Insert (From req) amount]
           | MonthQuery startDate endDate label \<Rightarrow> [SelectAmountBetween startDate endDate]
           | Invalid \<Rightarrow> []))"
  by (simp add: post_sms_def post_sms_try_def classify_def Let_def
      split: response.splits option.splits prod.splits)

lemmas label_simps = format_MMMM_YYYY_def months_def zeroFill4_def digitsOf_eval

section \<open>The three rules exclude one another\<close>

lemma lowerChar_o: "lowerChar c = CHR ''o'' \<Longrightarrow> c = CHR ''o'' \<or> c = CHR ''O''"
  by (simp add: lowerChar_def upperCaseLetters_def lowerCaseLetters_def split: if_splits)

lemma lowerChar_a: "lowerChar c = CHR ''a'' \<Longrightarrow> c = CHR ''a'' \<or> c = CHR ''A''"
  by (simp add: lowerChar_def upperCaseLetters_def lowerCaseLetters_def split: if_splits)

lemma lowerChar_l: "lowerChar c = CHR ''l'' \<Longrightarrow> c = CHR ''l'' \<or> c = CHR ''L''"
  by (simp add: lowerChar_def upperCaseLetters_def lowerCaseLetters_def split: if_splits)

lemma lowerChar_total:
  assumes "lowerChar c \<in> set ''total''"
  shows "isLetter c"
proof -
  have "c \<in> set ''totalTOTAL''"
    using assms lowerChar_t [of c] lowerChar_o [of c] lowerChar_a [of c] lowerChar_l [of c]
    by auto
  then show ?thesis by (auto simp: isLetter_def)
qed

lemma isLetter_word: "isLetter c \<Longrightarrow> isWordChar c \<and> \<not> isDigit c"
  by (auto simp: isLetter_def isWordChar_def isDigit_def Let_def)

lemma total_letters:
  assumes "toLowerCase s = ''total''"
  shows "s \<noteq> [] \<and> list_all isLetter s"
proof -
  have "\<forall>c\<in>set s. lowerChar c \<in> set ''total''"
    using assms unfolding toLowerCase_def by (metis imageI list.set_map)
  then have "list_all isLetter s" using lowerChar_total by (auto simp: list_all_iff)
  moreover have "s \<noteq> []" using assms by (auto simp: toLowerCase_def)
  ultimately show ?thesis by simp
qed

lemma matchWord_letters:
  assumes "s \<noteq> []" "list_all isLetter s" "r = [] \<or> hd r = CHR '' ''"
  shows "matchWord (s @ r) = Some (s, r)"
proof -
  obtain c cs where s: "s = c # cs" using assms(1) by (cases s) auto
  have l: "\<forall>x\<in>set s. isWordChar x" and c: "\<not> isDigit c"
    using assms(2) s isLetter_word by (auto simp: list_all_iff)
  have d: "takeWhile isDigit (s @ r) = []" "dropWhile isDigit (s @ r) = s @ r"
    using c s by simp_all
  have sp: "\<not> isWordChar CHR '' ''" by (simp add: isWordChar_def isLetter_def)
  have w: "takeWhile isWordChar (s @ r) = s \<and> dropWhile isWordChar (s @ r) = r"
  proof (cases r)
    case Nil
    then show ?thesis using l by simp
  next
    case (Cons x xs)
    then have "\<not> isWordChar x" using assms(3) sp by simp
    then show ?thesis using l Cons by (simp add: takeWhile_append2 dropWhile_append2)
  qed
  show ?thesis unfolding matchWord_def d Let_def using w assms(1) by simp
qed

lemma matchDigits_letter: "\<not> isDigit c \<Longrightarrow> 0 < k \<Longrightarrow> matchDigits k (c # cs) = None"
  by (cases k) (auto simp: matchDigits_def)

lemma total_not_date:
  assumes t: "toLowerCase s = ''total''"
  shows "dateQuery nz now s = None"
proof -
  have l: "s \<noteq> []" "list_all isLetter s" using total_letters [OF t] by simp_all
  obtain c cs where s: "s = c # cs" using l(1) by (cases s) auto
  have c: "\<not> isDigit c" using l(2) s isLetter_word by simp
  have w: "matchWord s = Some (s, [])" using matchWord_letters [OF l, of "[]"] by simp
  have w': "matchWord (s @ CHR '' '' # y) = Some (s, CHR '' '' # y)" for y
    using matchWord_letters [OF l, of "CHR '' '' # y"] by simp
  have m: "monthsParse months 0 (toLowerCase s) = None" "monthsParse monthsShort 0 (toLowerCase s) = None"
    unfolding t by (simp_all add: monthsParse_months monthsParse_monthsShort)
  have d: "matchDigits 2 s = None" "match1to2 s = None" "match1to2NoLeadingZero s = None"
    using c unfolding s by (simp_all add: match1to2_def match1to2NoLeadingZero_def matchDigits_letter)
  show ?thesis
    by (simp add: dateQuery_def formats_def monthNameFormats_def configFromStringAndFormat_def
        w w' m d)
qed

lemma takeWhile_all: "list_all P xs \<Longrightarrow> takeWhile P xs = xs"
  by (simp add: list_all_iff)

lemma dropWhile_all_Nil: "list_all P xs \<Longrightarrow> dropWhile P xs = []"
  by (simp add: list_all_iff)

lemma numberRegex_language:
  "numberRegex_test s \<longleftrightarrow>
     (\<exists>ip fp. ip \<noteq> [] \<and> list_all isDigit ip \<and> list_all isDigit fp \<and>
        (s = ip \<or> (fp \<noteq> [] \<and> s = ip @ ''.'' @ fp)))"
proof
  assume n: "numberRegex_test s"
  let ?ip = "takeWhile isDigit s"
  have ip: "?ip \<noteq> []" "list_all isDigit ?ip"
    using n by (auto simp: numberRegex_test_def list_all_iff dest: set_takeWhileD)
  show "\<exists>ip fp. ip \<noteq> [] \<and> list_all isDigit ip \<and> list_all isDigit fp \<and>
        (s = ip \<or> (fp \<noteq> [] \<and> s = ip @ ''.'' @ fp))"
  proof (cases "dropWhile isDigit s")
    case Nil
    have "s = ?ip" by (metis Nil append_Nil2 takeWhile_dropWhile_id)
    with ip show ?thesis by (intro exI [of _ ?ip] exI [of _ "[]"]) auto
  next
    case (Cons c fs)
    then have f: "c = CHR ''.''" "fs \<noteq> []" "list_all isDigit fs"
      using n by (auto simp: numberRegex_test_def)
    have "s = ?ip @ ''.'' @ fs" using takeWhile_dropWhile_id [of isDigit s] Cons f(1) by simp
    then show ?thesis using ip f by (intro exI [of _ ?ip] exI [of _ fs]) auto
  qed
next
  assume "\<exists>ip fp. ip \<noteq> [] \<and> list_all isDigit ip \<and> list_all isDigit fp \<and>
        (s = ip \<or> (fp \<noteq> [] \<and> s = ip @ ''.'' @ fp))"
  then obtain ip fp where ip: "ip \<noteq> []" "list_all isDigit ip" and fp: "list_all isDigit fp"
    and s: "s = ip \<or> (fp \<noteq> [] \<and> s = ip @ ''.'' @ fp)" by blast
  have dot: "\<not> isDigit CHR ''.''" by (simp add: isDigit_def)
  have all: "\<forall>x\<in>set ip. isDigit x" using ip(2) by (simp add: list_all_iff)
  from s show "numberRegex_test s"
  proof
    assume "s = ip"
    then show ?thesis using ip by (simp add: numberRegex_test_def takeWhile_all dropWhile_all_Nil)
  next
    assume a: "fp \<noteq> [] \<and> s = ip @ ''.'' @ fp"
    have "takeWhile isDigit s = ip" "dropWhile isDigit s = CHR ''.'' # fp"
      using a all dot by (simp_all add: takeWhile_append2 dropWhile_append2)
    then show ?thesis using ip fp a by (simp add: numberRegex_test_def)
  qed
qed

lemma getParseRegexForToken_prefix:
  "getParseRegexForToken nz t s = Some (inp, rest) \<Longrightarrow> s = inp @ rest"
proof (cases t)
  case MMMM
  assume "getParseRegexForToken nz t s = Some (inp, rest)"
  then show ?thesis using MMMM takeWhile_dropWhile_id [of isDigit s]
      takeWhile_dropWhile_id [of isWordChar "dropWhile isDigit s"]
    by (auto simp: matchWord_def Let_def split: if_splits)
next
  case MMM
  assume "getParseRegexForToken nz t s = Some (inp, rest)"
  then show ?thesis using MMM takeWhile_dropWhile_id [of isDigit s]
      takeWhile_dropWhile_id [of isWordChar "dropWhile isDigit s"]
    by (auto simp: matchWord_def Let_def split: if_splits)
qed (auto simp: matchDigits_def match1to2_def match1to2NoLeadingZero_def
      split: if_splits option.splits list.splits)

lemma literal_absent:
  assumes "c \<notin> set s" "t \<noteq> Lit c"
  shows "parseTokens nz (t # Lit c # ts) s a = None"
proof (cases "getParseRegexForToken nz t s")
  case None
  then show ?thesis by simp
next
  case (Some p)
  obtain inp rest where p: "p = (inp, rest)" by (cases p)
  have "s = inp @ rest" using Some p getParseRegexForToken_prefix by simp
  then have "c \<notin> set rest" using assms(1) by auto
  then have "getParseRegexForToken nz (Lit c) rest = None" by (cases rest) auto
  then show ?thesis using Some p by (simp split: option.splits)
qed

lemma numeric_chars:
  assumes "numberRegex_test s"
  shows "\<forall>x\<in>set s. isDigit x \<or> x = CHR ''.''"
proof -
  obtain ip fp where "list_all isDigit ip" "list_all isDigit fp" "s = ip \<or> s = ip @ ''.'' @ fp"
    using assms unfolding numberRegex_language by blast
  then show ?thesis by (auto simp: list_all_iff)
qed

lemma matchWord_numeric:
  assumes n: "numberRegex_test s" and r: "r = [] \<or> hd r = CHR '' ''"
  shows "matchWord (s @ r) = None"
proof -
  have sp: "\<not> isDigit CHR '' ''" "\<not> isWordChar CHR '' ''" "\<not> isWordChar CHR ''.''"
    by (simp_all add: isDigit_def isWordChar_def isLetter_def)
  have r': "takeWhile isDigit r = [] \<and> takeWhile isWordChar r = []"
    using r sp by (cases r) auto
  obtain ip fp where ip: "list_all isDigit ip" and s: "s = ip \<or> s = ip @ ''.'' @ fp"
    using n unfolding numberRegex_language by blast
  have all: "\<forall>x\<in>set ip. isDigit x" using ip by (simp add: list_all_iff)
  have "takeWhile isWordChar (dropWhile isDigit (s @ r)) = []"
  proof (cases "s = ip")
    case True
    then have "dropWhile isDigit (s @ r) = dropWhile isDigit r" using all by (simp add: dropWhile_append2)
    moreover have "dropWhile isDigit r = r" using r' by (cases r) (auto split: if_splits)
    ultimately show ?thesis using r' by simp
  next
    case False
    then have "s = ip @ ''.'' @ fp" using s by simp
    then have "dropWhile isDigit (s @ r) = CHR ''.'' # fp @ r"
      using all by (simp add: dropWhile_append2 isDigit_def)
    then show ?thesis using sp by simp
  qed
  then show ?thesis by (simp add: matchWord_def Let_def)
qed

lemma numeric_not_date:
  assumes n: "numberRegex_test s"
  shows "dateQuery nz now s = None"
proof -
  have sl: "CHR ''/'' \<notin> set s" using numeric_chars [OF n] by (auto simp: isDigit_def)
  have w: "matchWord s = None" using matchWord_numeric [OF n, of "[]"] by simp
  have w': "matchWord (s @ CHR '' '' # y) = None" for y
    using matchWord_numeric [OF n, of "CHR '' '' # y"] by simp
  have l: "parseTokens nz (t # Lit CHR ''/'' # ts) s a = None" if "t \<noteq> Lit CHR ''/''" for t ts a
    using literal_absent [OF sl that] .
  have f: "parseTokens nz (MMMM # ts) s a = None" "parseTokens nz (MMM # ts) s a = None"
    "parseTokens nz (MMMM # ts) (s @ CHR '' '' # y) a = None"
    "parseTokens nz (MMM # ts) (s @ CHR '' '' # y) a = None" for ts a y
    using w w' by simp_all
  show ?thesis
    by (simp add: dateQuery_def formats_def monthNameFormats_def configFromStringAndFormat_def
        f l del: parseTokens.simps(2))
qed

section \<open>Lemmas on doubles\<close>

declare bitLength.simps [simp del]

lemma bitLength_eval:
  "bitLength 0 = 0"
  "0 < n \<Longrightarrow> bitLength n = Suc (bitLength (n div 2))"
  by (simp_all add: bitLength.simps [of n] bitLength.simps [of 0])

lemmas double_simps = roundDouble_def quantum_def exponent_def roundHalfEven_def bitLength_eval
  Let_def

lemmas number_simps = js_parseFloat_def strUnsignedDecimalLiteral_def exponentPart_def
  js_toFixed_def toString_exponential_def double_simps digitsOf_eval isDigit_def
  isWhiteSpace_def toInt_def

lemma ieee_sel:
  "parseFloat ieee = js_parseFloat" "num_zero ieee = Finite 0"
  "num_add ieee = js_add" "toFixed ieee = js_toFixed"
  by (simp_all add: ieee_def)




lemma digit_char:
  assumes "k < 10"
  shows "isDigit (''0123456789'' ! k) \<and> int (of_char (''0123456789'' ! k)) - 48 = int k"
proof -
  have "k = 0 \<or> k = 1 \<or> k = 2 \<or> k = 3 \<or> k = 4 \<or> k = 5 \<or> k = 6 \<or> k = 7 \<or> k = 8 \<or> k = 9"
    using assms by arith
  then show ?thesis by (elim disjE) (simp_all add: isDigit_def)
qed

lemma toInt_snoc: "toInt (xs @ [c]) = 10 * toInt xs + (int (of_char c) - 48)"
  by (simp add: toInt_def)

lemma digitsOf_digits: "list_all isDigit (digitsOf n)"
proof (induction n rule: digitsOf.induct)
  case (1 n)
  show ?case
  proof (cases "n < 10")
    case True
    then show ?thesis using digit_char [of n] by (simp add: digitsOf_eval)
  next
    case False
    then show ?thesis using 1 digit_char [of "n mod 10"] by (simp add: digitsOf_eval)
  qed
qed

lemma toInt_digitsOf: "toInt (digitsOf n) = int n"
proof (induction n rule: digitsOf.induct)
  case (1 n)
  show ?case
  proof (cases "n < 10")
    case True
    then show ?thesis using digit_char [of n] by (simp add: digitsOf_eval toInt_def)
  next
    case False
    then have "toInt (digitsOf n) = 10 * int (n div 10) + int (n mod 10)"
      using 1 digit_char [of "n mod 10"] by (simp add: digitsOf_eval toInt_snoc)
    then show ?thesis by (simp add: zdiv_int zmod_int)
  qed
qed

lemma digitsOf_length:
  "1 \<le> length (digitsOf n)"
  "n < 100 \<Longrightarrow> length (digitsOf n) \<le> 2"
  "1000 \<le> n \<Longrightarrow> n < 10000 \<Longrightarrow> length (digitsOf n) = 4"
proof -
  show "1 \<le> length (digitsOf n)" by (cases "n < 10") (simp_all add: digitsOf_eval)
  have one: "m < 10 \<Longrightarrow> length (digitsOf m) = 1" for m by (simp add: digitsOf_eval)
  have two: "10 \<le> m \<Longrightarrow> m < 100 \<Longrightarrow> length (digitsOf m) = 2" for m
    using one [of "m div 10"] by (simp add: digitsOf_eval)
  have three: "100 \<le> m \<Longrightarrow> m < 1000 \<Longrightarrow> length (digitsOf m) = 3" for m
    using two [of "m div 10"] by (simp add: digitsOf_eval)
  show "n < 100 \<Longrightarrow> length (digitsOf n) \<le> 2"
    using one [of n] two [of n] by (cases "n < 10") simp_all
  show "1000 \<le> n \<Longrightarrow> n < 10000 \<Longrightarrow> length (digitsOf n) = 4"
    using three [of "n div 10"] by (simp add: digitsOf_eval)
qed




















section \<open>Lemmas on bare month names\<close>

lemma lowerChar_letter: "isLetter (lowerChar c) \<Longrightarrow> isLetter c"
  by (simp add: lowerChar_eval isLetter_def split: if_splits)

lemma toLowerCase_letters:
  assumes "list_all isLetter (toLowerCase w)"
  shows "list_all isLetter w"
  using assms lowerChar_letter by (auto simp: toLowerCase_def list_all_iff)

lemma dropWhile_none: "list_all (\<lambda>c. \<not> P c) xs \<Longrightarrow> dropWhile P xs = xs"
  by (cases xs) simp_all

lemma trim_letters:
  assumes "list_all isLetter w"
  shows "trim w = w"
proof -
  have n: "isLetter c \<Longrightarrow> \<not> isWhiteSpace c" for c
    by (auto simp: isLetter_def isWhiteSpace_def Let_def)
  have a: "list_all (\<lambda>c. \<not> isWhiteSpace c) w" using assms n by (auto simp: list_all_iff)
  then have b: "list_all (\<lambda>c. \<not> isWhiteSpace c) (rev w)" by simp
  show ?thesis unfolding trim_def dropWhile_none [OF a] dropWhile_none [OF b] by simp
qed

lemma matchDigits_exact:
  assumes "length ds = k" "list_all isDigit ds"
  shows "matchDigits k (ds @ r) = Some (ds, r)"
  using assms by (simp add: matchDigits_def)

lemma numberToString_year:
  assumes "0 \<le> y"
  shows "list_all isDigit (numberToString y)" "toInt (numberToString y) = y"
  using assms by (simp_all add: numberToString_def digitsOf_digits toInt_digitsOf)

lemma year_digits:
  assumes "1000 \<le> y" "y \<le> 9999"
  shows "length (numberToString y) = 4" "zeroFill4 y = numberToString y"
proof -
  have n: "1000 \<le> nat y" "nat y < 10000" using assms by simp_all
  have l: "length (digitsOf (nat y)) = 4" using digitsOf_length(3) [OF n] .
  show "length (numberToString y) = 4" using assms l by (simp add: numberToString_def)
  show "zeroFill4 y = numberToString y" using assms l by (simp add: numberToString_def zeroFill4_def Let_def)
qed

lemma month_name_cases:
  assumes i: "i < 12"
    and w: "l = toLowerCase (months ! i) \<or> l = toLowerCase (monthsShort ! i)"
  shows "list_all isLetter l \<and> l \<noteq> [] \<and> l \<noteq> ''total'' \<and>
         (monthsParse months 0 l = Some (int i) \<or>
          monthsParse months 0 l = None \<and> monthsParse monthsShort 0 l = Some (int i))"
proof -
  have "i = 0 \<or> i = 1 \<or> i = 2 \<or> i = 3 \<or> i = 4 \<or> i = 5 \<or> i = 6 \<or> i = 7 \<or> i = 8 \<or> i = 9
        \<or> i = 10 \<or> i = 11"
    using i by arith
  then show ?thesis
    using w
    by (elim disjE)
      (simp_all add: months_def monthsShort_def toLowerCase_def lowerChar_eval isLetter_def
        monthsParse_months monthsParse_monthsShort)
qed

lemma bare_month_name:
  assumes i: "i < 12"
    and w: "toLowerCase w = toLowerCase (months ! i) \<or> toLowerCase w = toLowerCase (monthsShort ! i)"
    and y: "1000 \<le> y" "y \<le> 9999"
  shows "trim w = w" "toLowerCase w \<noteq> ''total''" "\<not> numberRegex_test w"
    "configFromStringAndArray nz (y, nm, nd) formats w = None"
    "dateQuery nz (y, nm, nd) w = Some (y, int i, 1)"
proof -
  note n = month_name_cases [OF i w]
  have l: "w \<noteq> []" "list_all isLetter w"
    using n toLowerCase_letters [of w] by (auto simp: toLowerCase_def)
  show "trim w = w" using l(2) by (rule trim_letters)
  show t: "toLowerCase w \<noteq> ''total''" using n by simp
  obtain c cs where s: "w = c # cs" using l(1) by (cases w) auto
  have c: "\<not> isDigit c" using l(2) s isLetter_word by simp
  then show r: "\<not> numberRegex_test w" unfolding s by (simp add: numberRegex_test_def)
  define ds where "ds = numberToString y"
  have ds: "length ds = 4" "list_all isDigit ds" "toInt ds = y"
    unfolding ds_def using year_digits(1) [OF y] numberToString_year [of y] y by simp_all
  have mw: "matchWord w = Some (w, [])" using matchWord_letters [OF l, of "[]"] by simp
  have mw': "matchWord (w @ CHR '' '' # ds) = Some (w, CHR '' '' # ds)"
    using matchWord_letters [OF l, of "CHR '' '' # ds"] by simp
  have d: "matchDigits 2 w = None" "match1to2 w = None" "match1to2NoLeadingZero w = None"
    using c unfolding s by (simp_all add: match1to2_def match1to2NoLeadingZero_def matchDigits_letter)
  have md: "matchDigits 4 ds = Some (ds, [])" using matchDigits_exact [OF ds(1,2), of "[]"] by simp
  have "int i mod 7 mod 2 < 2" by (rule pos_mod_bound) simp
  then have "int i mod 7 mod 2 \<le> 30" by linarith
  then have ov: "checkOverflow (y, int i, 1)"
    using i by (simp add: checkOverflow_def daysInMonth_def Let_def)
  have p: "parseTokens nz (MMMM # Lit CHR '' '' # ts) w a = None"
    "parseTokens nz (MMM # Lit CHR '' '' # ts) w a = None"
    "parseTokens nz (MM # ts) w a = None" "parseTokens nz (M # ts) w a = None" for ts a
    by (simp_all add: mw d split: option.splits)
  show f: "configFromStringAndArray nz (y, nm, nd) formats w = None"
    by (simp add: formats_def configFromStringAndFormat_def p del: parseTokens.simps(2))
  have q: "parseTokens nz [Lit CHR '' '', YYYY] (CHR '' '' # ds) a = Some (a\<lparr>YEAR := Some y\<rparr>)" for a
    by (simp add: md ds)
  have q1: "parseTokens nz [MMMM, Lit CHR '' '', YYYY] (w @ CHR '' '' # ds) emptyArray =
      (case monthsParse months 0 (toLowerCase w) of
         None \<Rightarrow> None
       | Some j \<Rightarrow> Some (emptyArray\<lparr>MONTH := Some j, YEAR := Some y\<rparr>))"
    using q by (simp add: mw' split: option.splits)
  have q2: "parseTokens nz [MMM, Lit CHR '' '', YYYY] (w @ CHR '' '' # ds) emptyArray =
      (case monthsParse monthsShort 0 (toLowerCase w) of
         None \<Rightarrow> None
       | Some j \<Rightarrow> Some (emptyArray\<lparr>MONTH := Some j, YEAR := Some y\<rparr>))"
    using q by (simp add: mw' split: option.splits)
  have ca: "configFromArray (y, nm, nd) (emptyArray\<lparr>MONTH := Some (int i), YEAR := Some y\<rparr>) = (y, int i, 1)"
    by (simp add: configFromArray_def emptyArray_def)
  have "monthsParse months 0 (toLowerCase w) = Some (int i) \<or>
        monthsParse months 0 (toLowerCase w) = None \<and> monthsParse monthsShort 0 (toLowerCase w) = Some (int i)"
    using n by simp
  then have "configFromStringAndArray nz (y, nm, nd) monthNameFormats (w @ CHR '' '' # ds) = Some (y, int i, 1)"
  proof
    assume a: "monthsParse months 0 (toLowerCase w) = Some (int i)"
    show ?thesis
      unfolding monthNameFormats_def configFromStringAndArray.simps configFromStringAndFormat_def q1 a
      using ov by (simp add: ca)
  next
    assume a: "monthsParse months 0 (toLowerCase w) = None \<and> monthsParse monthsShort 0 (toLowerCase w) = Some (int i)"
    then have a1: "monthsParse months 0 (toLowerCase w) = None"
      and a2: "monthsParse monthsShort 0 (toLowerCase w) = Some (int i)" by simp_all
    show ?thesis
      unfolding monthNameFormats_def configFromStringAndArray.simps configFromStringAndFormat_def q1 q2 a1 a2
      using ov by (simp add: ca)
  qed
  then show "dateQuery nz (y, nm, nd) w = Some (y, int i, 1)"
    unfolding dateQuery_def f ds_def by simp
qed

lemma bare_month_label:
  assumes i: "i < 12" and y: "1000 \<le> y" "y \<le> 9999"
  shows "format_MMMM_YYYY (y, int i, d) = months ! i @ '' '' @ numberToString y"
  using i year_digits(2) [OF y] by (simp add: format_MMMM_YYYY_def)





lemma label_march_2023: "format_MMMM_YYYY (2023, 2, d) = ''March 2023''"
  by (simp add: format_MMMM_YYYY_def months_def zeroFill4_def digitsOf_eval)

lemma range_march_2023:
  "startOf_month 2023 2 = 1677628800000" "endOf_month 2023 2 = 1680307199999"
  by (simp_all add: instant_simps)

section \<open>The total\<close>




section \<open>Cash entries\<close>




section \<open>Invalid input\<close>

text \<open>
  C7. A body that is neither the keyword, nor a number, nor a date is invalid: the
  handler makes no request to the datastore and replies with the fixed guidance.
\<close>

theorem invalid_input:
  "Body req = Some b \<Longrightarrow> toLowerCase (trim b) \<noteq> ''total'' \<Longrightarrow> \<not> numberRegex_test (trim b) \<Longrightarrow>
   dateQuery (noLeadingZero e) (clock e) (trim b) = None \<Longrightarrow>
     classify (number e) (noLeadingZero e) (clock e) b = Invalid \<and>
     queries (fst (post_sms e req)) = [] \<and>
     replies (fst (post_sms e req)) = [invalidInput] \<and>
     snd (post_sms e req) = None"
  by (simp add: classify_def post_sms_def post_sms_try_def Let_def)

theorem invalid_input_witness:
  "toLowerCase (trim ''hello'') \<noteq> ''total'' \<and> \<not> numberRegex_test (trim ''hello'') \<and>
   dateQuery True (2024, 5, 15) (trim ''hello'') = None \<and>
   classify ieee True (2024, 5, 15) ''hello'' = Invalid \<and>
   queries (fst (post_sms (exampleEnv Rejected) \<lparr>Body = Some ''hello'', From = Some ''+15550100''\<rparr>)) = [] \<and>
   replies (fst (post_sms (exampleEnv Rejected) \<lparr>Body = Some ''hello'', From = Some ''+15550100''\<rparr>))
     = [invalidInput] \<and>
   toLowerCase (trim ''12.5.3'') \<noteq> ''total'' \<and> \<not> numberRegex_test (trim ''12.5.3'') \<and>
   dateQuery True (2024, 5, 15) (trim ''12.5.3'') = None \<and>
   classify ieee True (2024, 5, 15) ''12.5.3'' = Invalid \<and>
   queries (fst (post_sms (exampleEnv Rejected) \<lparr>Body = Some ''12.5.3'', From = Some ''+15550100''\<rparr>)) = [] \<and>
   replies (fst (post_sms (exampleEnv Rejected) \<lparr>Body = Some ''12.5.3'', From = Some ''+15550100''\<rparr>))
     = [invalidInput]"
proof -
  have t: "trim ''hello'' = ''hello''" "trim ''12.5.3'' = ''12.5.3''"
    by (simp_all add: trim_def isWhiteSpace_def)
  have a: "toLowerCase (trim ''hello'') \<noteq> ''total''" "toLowerCase (trim ''12.5.3'') \<noteq> ''total''"
    unfolding t by (simp_all add: toLowerCase_def lowerChar_eval)
  have b: "\<not> numberRegex_test (trim ''hello'')" "\<not> numberRegex_test (trim ''12.5.3'')"
    unfolding t by (simp_all add: numberRegex_test_def isDigit_def)
  have c: "dateQuery True (2024, 5, 15) (trim ''hello'') = None"
    "dateQuery True (2024, 5, 15) (trim ''12.5.3'') = None"
    unfolding t by (simp_all add: parse_simps string_simps digitsOf_eval)
  show ?thesis
    using a b c
      invalid_input [of "\<lparr>Body = Some ''hello'', From = Some ''+15550100''\<rparr>" "''hello''" "exampleEnv Rejected"]
      invalid_input [of "\<lparr>Body = Some ''12.5.3'', From = Some ''+15550100''\<rparr>" "''12.5.3''" "exampleEnv Rejected"]
    by (simp add: exampleEnv_def)
qed

section \<open>Exceptions\<close>

text \<open>
  C2. Every invocation ends with exactly one reply and no exception leaves the handler:
  an exception thrown in the \<open>try\<close> is logged and answered with the fixed
  unexpected-error reply.
\<close>

theorem one_reply:
  "snd (post_sms e req) = None \<and>
   length (replies (fst (post_sms e req))) = 1 \<and>
   (\<forall>x. snd (post_sms_try e req) = Some x \<longrightarrow>
      replies (fst (post_sms e req)) = [''An unexpected error occurred. Please try again later.''] \<and>
      last (logs (fst (post_sms e req))) = ServerError x)"
  by (simp add: post_sms_def post_sms_try_def unexpectedError_def Let_def
      split: response.splits option.splits prod.splits)

theorem one_reply_witness:
  "snd (post_sms_try (exampleEnv Rejected) \<lparr>Body = None, From = None\<rparr>) = Some TypeError \<and>
   snd (post_sms (exampleEnv Rejected) \<lparr>Body = None, From = None\<rparr>) = None \<and>
   replies (fst (post_sms (exampleEnv Rejected) \<lparr>Body = None, From = None\<rparr>))
     = [''An unexpected error occurred. Please try again later.''] \<and>
   snd (post_sms_try (exampleEnv Rejected) \<lparr>Body = Some ''total'', From = None\<rparr>) = Some Rejection \<and>
   replies (fst (post_sms (exampleEnv Rejected) \<lparr>Body = Some ''total'', From = None\<rparr>))
     = [''An unexpected error occurred. Please try again later.'']"
proof -
  have a: "snd (post_sms_try (exampleEnv Rejected) \<lparr>Body = None, From = None\<rparr>) = Some TypeError"
    by (simp add: post_sms_try_def)
  have b: "snd (post_sms_try (exampleEnv Rejected) \<lparr>Body = Some ''total'', From = None\<rparr>) = Some Rejection"
    by (simp add: post_sms_try_def exampleEnv_def string_simps)
  show ?thesis
    using a b one_reply [of "exampleEnv Rejected" "\<lparr>Body = None, From = None\<rparr>"]
      one_reply [of "exampleEnv Rejected" "\<lparr>Body = Some ''total'', From = None\<rparr>"]
    by simp
qed

section \<open>White space\<close>

text \<open>
  C10. White space before or after the body changes nothing: the body is trimmed once,
  before every check, so the classification and everything the handler does (its
  reply, its request to the datastore, its log) are those of the body without it.
\<close>

theorem whitespace_ignored:
  "list_all isWhiteSpace pre \<Longrightarrow> list_all isWhiteSpace post \<Longrightarrow>
     classify num nz now (pre @ s @ post) = classify num nz now s \<and>
     post_sms e \<lparr>Body = Some (pre @ s @ post), From = f\<rparr> = post_sms e \<lparr>Body = Some s, From = f\<rparr>"
  by (simp add: classify_def post_sms_def post_sms_try_def trim_append_whitespace)

theorem whitespace_ignored_witness:
  "list_all isWhiteSpace [CHR 0x20, CHR 0x09] \<and> list_all isWhiteSpace [CHR 0x0D, CHR 0x0A] \<and>
   classify ieee True (2024, 5, 15) ([CHR 0x20, CHR 0x09] @ ''50'' @ [CHR 0x0D, CHR 0x0A])
     = classify ieee True (2024, 5, 15) ''50'' \<and>
   post_sms (exampleEnv (Resolved None None))
       \<lparr>Body = Some ([CHR 0x20, CHR 0x09] @ ''50'' @ [CHR 0x0D, CHR 0x0A]), From = Some ''+15550100''\<rparr>
     = post_sms (exampleEnv (Resolved None None)) \<lparr>Body = Some ''50'', From = Some ''+15550100''\<rparr>"
proof -
  have pre: "list_all isWhiteSpace [CHR 0x20, CHR 0x09]" by (simp add: isWhiteSpace_def)
  have post: "list_all isWhiteSpace [CHR 0x0D, CHR 0x0A]" by (simp add: isWhiteSpace_def)
  show ?thesis
    using pre post whitespace_ignored [OF pre post, of ieee True "(2024, 5, 15)" "''50''"
        "exampleEnv (Resolved None None)" "Some ''+15550100''"]
    by simp
qed

section \<open>Month queries\<close>

text \<open>
  C1, as the handler has it. For a body that is a month query, the range starts at the
  first instant of the matched month and ends at the last millisecond of that month, one
  millisecond before the first instant of the following month, which comes when the days
  of the matched month have passed. The handler makes exactly one request, the read of
  the amounts whose \<open>created_at\<close> lies between the two: every entry recorded from the
  start to the end of the range is read, and no entry recorded before the month or from
  the first instant of the following month on. No exception leaves the handler. It adds
  the amounts it has read itself and replies with the label of the month and
  \<open>toFixed(2)\<close> of the sum, with the fixed retrieval error when the datastore reports an
  error, and with the fixed unexpected error when the request fails otherwise.
\<close>

theorem month_query_range:
  "Body req = Some b \<Longrightarrow> toLowerCase (trim b) \<noteq> ''total'' \<Longrightarrow> \<not> numberRegex_test (trim b) \<Longrightarrow>
   dateQuery (noLeadingZero e) (clock e) (trim b) = Some (y, m, d) \<Longrightarrow>
     classify (number e) (noLeadingZero e) (clock e) b
       = MonthQuery (startOfDate y m 1) (startOfDate y (m + 1) 1 - 1) (format_MMMM_YYYY (y, m, d)) \<and>
     queries (fst (post_sms e req))
       = [SelectAmountBetween (startOfDate y m 1) (startOfDate y (m + 1) 1 - 1)] \<and>
     startOfDate y (m + 1) 1 = startOfDate y m 1 + daysInMonth y m * 86400000 \<and>
     (\<forall>t. of_int (startOfDate y m 1) \<le> t \<and> t \<le> of_int (startOfDate y (m + 1) 1 - 1) \<longrightarrow>
          selects (SelectAmountBetween (startOfDate y m 1) (startOfDate y (m + 1) 1 - 1) :: 'n query) t) \<and>
     (\<forall>t. selects (SelectAmountBetween (startOfDate y m 1) (startOfDate y (m + 1) 1 - 1) :: 'n query) t \<longrightarrow>
          of_int (startOfDate y m 1) \<le> t \<and> t < of_int (startOfDate y (m + 1) 1)) \<and>
     snd (post_sms e req) = None \<and>
     replies (fst (post_sms e req)) =
       (case supabase e (SelectAmountBetween (startOfDate y m 1) (startOfDate y (m + 1) 1 - 1)) of
          Resolved None (Some data) \<Rightarrow>
            [''Total cash for '' @ format_MMMM_YYYY (y, m, d) @ '': $'' @
               toFixed (number e)
                 (foldl (\<lambda>sum entry. num_add (number e) sum (parseFloat (number e) entry))
                    (num_zero (number e)) data) 2]
        | Resolved (Some err) data \<Rightarrow>
            [''An error occurred while retrieving data. Please try again later.'']
        | _ \<Rightarrow> [''An unexpected error occurred. Please try again later.''])"
  for e :: "'n env"
proof -
  assume b: "Body req = Some b" and t: "toLowerCase (trim b) \<noteq> ''total''"
    and n: "\<not> numberRegex_test (trim b)"
    and q: "dateQuery (noLeadingZero e) (clock e) (trim b) = Some (y, m, d)"
  let ?q = "SelectAmountBetween (startOfDate y m 1) (startOfDate y (m + 1) 1 - 1) :: 'n query"
  have m: "0 \<le> m \<and> m \<le> 11" using dateQuery_valid [OF q] by (simp add: checkOverflow_def)
  have 1: "classify (number e) (noLeadingZero e) (clock e) b
       = MonthQuery (startOfDate y m 1) (startOfDate y (m + 1) 1 - 1) (format_MMMM_YYYY (y, m, d))"
    using t n q by (simp add: classify_def startOf_month_def endOf_month_def)
  have 2: "queries (fst (post_sms e req)) = [?q]"
    using b t n q
    by (simp add: post_sms_def post_sms_try_def startOf_month_def endOf_month_def Let_def
        split: response.splits option.splits)
  have 3: "startOfDate y (m + 1) 1 = startOfDate y m 1 + daysInMonth y m * 86400000"
    using m startOfDate_next_month [of m y] by simp
  have 4: "selects ?q t" if "of_int (startOfDate y m 1) \<le> t \<and> t \<le> of_int (startOfDate y (m + 1) 1 - 1)" for t
    using that by (simp add: selects_def)
  have 5: "of_int (startOfDate y m 1) \<le> t \<and> t < of_int (startOfDate y (m + 1) 1)" if "selects ?q t" for t
    using that by (simp add: selects_def)
  have 6: "snd (post_sms e req) = None"
    using b t n q
    by (simp add: post_sms_def post_sms_try_def Let_def split: response.splits option.splits)
  have 7: "replies (fst (post_sms e req)) =
       (case supabase e ?q of
          Resolved None (Some data) \<Rightarrow>
            [''Total cash for '' @ format_MMMM_YYYY (y, m, d) @ '': $'' @
               toFixed (number e)
                 (foldl (\<lambda>sum entry. num_add (number e) sum (parseFloat (number e) entry))
                    (num_zero (number e)) data) 2]
        | Resolved (Some err) data \<Rightarrow>
            [''An error occurred while retrieving data. Please try again later.'']
        | _ \<Rightarrow> [''An unexpected error occurred. Please try again later.''])"
    using b t n q
    by (simp add: post_sms_def post_sms_try_def startOf_month_def endOf_month_def Let_def
        sumAmounts_def retrieveError_def unexpectedError_def
        split: response.splits option.splits)
  show ?thesis
    apply (intro conjI allI impI)
    subgoal by (rule 1)
    subgoal by (rule 2)
    subgoal by (rule 3)
    subgoal for t by (rule 4)
    subgoal for t using 5 [of t] by simp
    subgoal for t using 5 [of t] by simp
    subgoal by (rule 6)
    subgoal by (rule 7)
    done
qed

theorem month_query_range_witness:
  "toLowerCase (trim ''Feb 2024'') \<noteq> ''total'' \<and> \<not> numberRegex_test (trim ''Feb 2024'') \<and>
   dateQuery True (2024, 5, 15) (trim ''Feb 2024'') = Some (2024, 1, 1) \<and>
   classify ieee True (2024, 5, 15) ''Feb 2024''
     = MonthQuery 1706745600000 1709251199999 ''February 2024'' \<and>
   queries (fst (post_sms (exampleEnv (Resolved None (Some [''100'', ''25.5''])))
       \<lparr>Body = Some ''Feb 2024'', From = Some ''+15550100''\<rparr>))
     = [SelectAmountBetween 1706745600000 1709251199999] \<and>
   startOfDate 2024 2 1 = 1706745600000 + 29 * 86400000 \<and>
   selects (SelectAmountBetween 1706745600000 1709251199999 :: jsnumber query) 1709251199999 \<and>
   replies (fst (post_sms (exampleEnv (Resolved None (Some [''100'', ''25.5''])))
       \<lparr>Body = Some ''Feb 2024'', From = Some ''+15550100''\<rparr>))
     = [''Total cash for February 2024: $125.50'']"
proof -
  let ?req = "\<lparr>Body = Some ''Feb 2024'', From = Some ''+15550100''\<rparr>"
  let ?e = "exampleEnv (Resolved None (Some [''100'', ''25.5'']))"
  have t: "trim ''Feb 2024'' = ''Feb 2024''" by (simp add: trim_def isWhiteSpace_def)
  have a: "toLowerCase (trim ''Feb 2024'') \<noteq> ''total''" unfolding t by (simp add: toLowerCase_def)
  have b: "\<not> numberRegex_test (trim ''Feb 2024'')" unfolding t by (simp add: numberRegex_test_def isDigit_def)
  have e: "number ?e = ieee" "noLeadingZero ?e = True" "clock ?e = (2024, 5, 15)"
    "supabase ?e q = Resolved None (Some [''100'', ''25.5''])" for q
    by (simp_all add: exampleEnv_def)
  have c: "dateQuery (noLeadingZero ?e) (clock ?e) (trim ''Feb 2024'') = Some (2024, 1, 1)"
    unfolding t e by (simp add: parse_simps string_simps)
  have s: "startOfDate 2024 1 1 = 1706745600000" "startOfDate 2024 2 1 = 1709251200000"
    "daysInMonth 2024 1 = 29"
    by (simp_all add: instant_simps daysInMonth_def)
  have l: "format_MMMM_YYYY (2024, 1, 1) = ''February 2024''"
    by (simp add: format_MMMM_YYYY_def months_def zeroFill4_def digitsOf_eval)
  have p: "js_parseFloat ''100'' = Finite 100" "js_parseFloat ''25.5'' = Finite (51 / 2)"
    by (simp_all add: number_simps)
  have r: "roundDouble (251 / 2) = Finite (251 / 2)" by (simp add: double_simps)
  have sm: "js_add (js_add (Finite 0) (js_parseFloat ''100'')) (js_parseFloat ''25.5'') = Finite (251 / 2)"
    by (simp add: p r double_simps)
  have f: "js_toFixed (Finite (251 / 2)) 2 = ''125.50''" by (simp add: number_simps)
  have bd: "Body ?req = Some ''Feb 2024''" by simp
  note T = month_query_range [OF bd a b c]
  have 1: "classify (number ?e) (noLeadingZero ?e) (clock ?e) ''Feb 2024''
       = MonthQuery (startOfDate 2024 1 1) (startOfDate 2024 (1 + 1) 1 - 1) (format_MMMM_YYYY (2024, 1, 1))"
    and 2: "queries (fst (post_sms ?e ?req))
       = [SelectAmountBetween (startOfDate 2024 1 1) (startOfDate 2024 (1 + 1) 1 - 1)]"
    and 3: "startOfDate 2024 (1 + 1) 1 = startOfDate 2024 1 1 + daysInMonth 2024 1 * 86400000"
    and 4: "\<forall>t. of_int (startOfDate 2024 1 1) \<le> t \<and> t \<le> of_int (startOfDate 2024 (1 + 1) 1 - 1) \<longrightarrow>
          selects (SelectAmountBetween (startOfDate 2024 1 1) (startOfDate 2024 (1 + 1) 1 - 1) :: jsnumber query) t"
    and 5: "replies (fst (post_sms ?e ?req)) =
       (case supabase ?e (SelectAmountBetween (startOfDate 2024 1 1) (startOfDate 2024 (1 + 1) 1 - 1)) of
          Resolved None (Some data) \<Rightarrow>
            [''Total cash for '' @ format_MMMM_YYYY (2024, 1, 1) @ '': $'' @
               toFixed (number ?e)
                 (foldl (\<lambda>sum entry. num_add (number ?e) sum (parseFloat (number ?e) entry))
                    (num_zero (number ?e)) data) 2]
        | Resolved (Some err) data \<Rightarrow>
            [''An error occurred while retrieving data. Please try again later.'']
        | _ \<Rightarrow> [''An unexpected error occurred. Please try again later.''])"
    using T by blast+
  have o: "(1::int) + 1 = 2" by simp
  have 6: "selects (SelectAmountBetween 1706745600000 1709251199999 :: jsnumber query) 1709251199999"
    using 4 [unfolded o s] by simp
  have 7: "replies (fst (post_sms ?e ?req)) = [''Total cash for February 2024: $125.50'']"
    unfolding 5 e by (simp add: l ieee_sel sm f)
  have c1: "classify ieee True (2024, 5, 15) ''Feb 2024''
     = MonthQuery 1706745600000 1709251199999 ''February 2024''"
    using 1 unfolding e o s l by simp
  have c2: "queries (fst (post_sms ?e ?req)) = [SelectAmountBetween 1706745600000 1709251199999]"
    using 2 unfolding o s by simp
  have c3: "startOfDate 2024 2 1 = 1706745600000 + 29 * 86400000" unfolding s by simp
  show ?thesis
    using a b c [unfolded e] c1 c2 c3 6 7 by (intro conjI)
qed

text \<open>
  C1 as it is stated fails on the body \<open>March 2023\<close>: the end of the range that the
  handler resolves and sends is not the first instant of April 2023 but the millisecond
  before it, and that end is included, not excluded: an entry recorded at the end
  instant is read.
\<close>

theorem month_end_counterexample:
  "queries (fst (post_sms (exampleEnv (Resolved None (Some [])))
       \<lparr>Body = Some ''March 2023'', From = Some ''+15550100''\<rparr>))
     = [SelectAmountBetween 1677628800000 1680307199999] \<and>
   startOfDate 2023 2 1 = 1677628800000 \<and>
   startOfDate 2023 3 1 = 1680307200000 \<and>
   startOfDate 2023 3 1 \<noteq> 1680307199999 \<and>
   selects (SelectAmountBetween 1677628800000 1680307199999 :: jsnumber query) 1680307199999"
proof -
  have c: "dateQuery True (2024, 5, 15) ''March 2023'' = Some (2023, 2, 1)"
    by (simp add: parse_simps string_simps)
  have s: "startOfDate 2023 2 1 = 1677628800000" "startOfDate 2023 3 1 = 1680307200000"
    by (simp_all add: instant_simps)
  have q: "queries (fst (post_sms (exampleEnv (Resolved None (Some [])))
       \<lparr>Body = Some ''March 2023'', From = Some ''+15550100''\<rparr>))
     = [SelectAmountBetween 1677628800000 1680307199999]"
    by (simp add: post_sms_def post_sms_try_def exampleEnv_def c string_simps
        startOf_month_def endOf_month_def s Let_def)
  show ?thesis using q by (simp add: s selects_def)
qed

section \<open>The formats of a month\<close>

text \<open>
  C5. The bodies \<open>March 2023\<close>, \<open>Mar 2023\<close>, \<open>03/2023\<close>, \<open>3/2023\<close> and \<open>03/15/2023\<close> are all
  month queries for March 2023, with the same range and the same label: the day of the
  last one is not used. This holds under either release of the parser and whatever the
  clock shows.
\<close>

theorem march_2023_inputs:
  "classify num nz now ''March 2023'' = MonthQuery 1677628800000 1680307199999 ''March 2023'' \<and>
   classify num nz now ''Mar 2023'' = MonthQuery 1677628800000 1680307199999 ''March 2023'' \<and>
   classify num nz now ''03/2023'' = MonthQuery 1677628800000 1680307199999 ''March 2023'' \<and>
   classify num nz now ''3/2023'' = MonthQuery 1677628800000 1680307199999 ''March 2023'' \<and>
   classify num nz now ''03/15/2023'' = MonthQuery 1677628800000 1680307199999 ''March 2023''"
proof -
  have 1: "dateQuery nz now ''March 2023'' = Some (2023, 2, 1)"
    by (simp add: parse_simps string_simps)
  have 2: "dateQuery nz now ''Mar 2023'' = Some (2023, 2, 1)"
    by (simp add: parse_simps string_simps)
  have 3: "dateQuery nz now ''03/2023'' = Some (2023, 2, 1)"
    by (simp add: parse_simps string_simps)
  have 4: "dateQuery nz now ''3/2023'' = Some (2023, 2, 1)"
    by (simp add: parse_simps string_simps)
  have 5: "dateQuery nz now ''03/15/2023'' = Some (2023, 2, 15)"
    by (simp add: parse_simps string_simps)
  show ?thesis
    by (simp add: classify_def 1 2 3 4 5 label_march_2023 range_march_2023 string_simps)
qed

text \<open>
  C6. When the strict parse against the six formats fails, the classification is that of
  the strict parse of the trimmed body, a space and the year of the clock against the
  two formats with a month name. The year is appended as its decimal digits, which read
  back as the year. So under a clock in any year from 1000 to 9999, a body that is the
  full or the abbreviated name of a month in any letter case, which none of the six
  formats parses, is the month query for that month of that year; in particular \<open>March\<close>
  under a clock in 2024 is the month query for March 2024.
\<close>

theorem bare_month_retry:
  "(toLowerCase (trim b) \<noteq> ''total'' \<and> \<not> numberRegex_test (trim b) \<and>
    configFromStringAndArray nz now formats (trim b) = None \<longrightarrow>
      classify num nz now b =
        (case configFromStringAndArray nz now [[MMMM, Lit CHR '' '', YYYY], [MMM, Lit CHR '' '', YYYY]]
                (trim b @ '' '' @ numberToString (fst now)) of
           Some (y, m, d) \<Rightarrow> MonthQuery (startOf_month y m) (endOf_month y m) (format_MMMM_YYYY (y, m, d))
         | None \<Rightarrow> Invalid)) \<and>
   (0 \<le> year \<longrightarrow> list_all isDigit (numberToString year) \<and> toInt (numberToString year) = year) \<and>
   (1000 \<le> year \<and> year \<le> 9999 \<and> i < 12 \<and>
    (toLowerCase (trim b) = toLowerCase (months ! i) \<or>
     toLowerCase (trim b) = toLowerCase (monthsShort ! i)) \<longrightarrow>
      configFromStringAndArray nz (year, nm, nd) formats (trim b) = None \<and>
      classify num nz (year, nm, nd) b =
        MonthQuery (startOfDate year (int i) 1) (startOfDate year (int i + 1) 1 - 1)
          (months ! i @ '' '' @ numberToString year)) \<and>
   configFromStringAndArray nz (2024, nm, nd) formats ''March'' = None \<and>
   classify num nz (2024, nm, nd) ''March'' = MonthQuery 1709251200000 1711929599999 ''March 2024''"
proof -
  have f: "configFromStringAndArray nz (2024, nm, nd) formats ''March'' = None"
    by (simp add: parse_simps string_simps)
  have c: "dateQuery nz (2024, nm, nd) ''March'' = Some (2024, 2, 1)"
    by (simp add: parse_simps string_simps digitsOf_eval)
  have s: "startOf_month 2024 2 = 1709251200000" "endOf_month 2024 2 = 1711929599999"
    by (simp_all add: instant_simps)
  have l: "format_MMMM_YYYY (2024, 2, 1) = ''March 2024''"
    by (simp add: format_MMMM_YYYY_def months_def zeroFill4_def digitsOf_eval)
  have m: "classify num nz (2024, nm, nd) ''March'' = MonthQuery 1709251200000 1711929599999 ''March 2024''"
    by (simp add: classify_def c s l string_simps)
  have g: "toLowerCase (trim b) \<noteq> ''total'' \<and> \<not> numberRegex_test (trim b) \<and>
    configFromStringAndArray nz now formats (trim b) = None \<longrightarrow>
      classify num nz now b =
        (case configFromStringAndArray nz now [[MMMM, Lit CHR '' '', YYYY], [MMM, Lit CHR '' '', YYYY]]
                (trim b @ '' '' @ numberToString (fst now)) of
           Some (y, m, d) \<Rightarrow> MonthQuery (startOf_month y m) (endOf_month y m) (format_MMMM_YYYY (y, m, d))
         | None \<Rightarrow> Invalid)"
    unfolding classify_def dateQuery_def monthNameFormats_def Let_def
    by (auto split: option.splits)
  have y: "0 \<le> year \<longrightarrow> list_all isDigit (numberToString year) \<and> toInt (numberToString year) = year"
    using numberToString_year [of year] by simp
  have a: "configFromStringAndArray nz (year, nm, nd) formats (trim b) = None \<and>
      classify num nz (year, nm, nd) b =
        MonthQuery (startOfDate year (int i) 1) (startOfDate year (int i + 1) 1 - 1)
          (months ! i @ '' '' @ numberToString year)"
    if h: "1000 \<le> year \<and> year \<le> 9999 \<and> i < 12 \<and>
      (toLowerCase (trim b) = toLowerCase (months ! i) \<or>
       toLowerCase (trim b) = toLowerCase (monthsShort ! i))"
  proof -
    from h have h1: "1000 \<le> year" and h2: "year \<le> 9999" and h3: "i < 12"
      and h4: "toLowerCase (trim b) = toLowerCase (months ! i) \<or>
               toLowerCase (trim b) = toLowerCase (monthsShort ! i)" by simp_all
    note n = bare_month_name [OF h3 h4 h1 h2]
    have "classify num nz (year, nm, nd) b =
        MonthQuery (startOf_month year (int i)) (endOf_month year (int i)) (format_MMMM_YYYY (year, int i, 1))"
      unfolding classify_def Let_def using n(2,3,5) by simp
    then have "classify num nz (year, nm, nd) b =
        MonthQuery (startOfDate year (int i) 1) (startOfDate year (int i + 1) 1 - 1)
          (months ! i @ '' '' @ numberToString year)"
      unfolding bare_month_label [OF h3 h1 h2] startOf_month_def endOf_month_def .
    then show ?thesis using n(4) by simp
  qed
  show ?thesis using f g m y a by (intro conjI impI) blast+
qed

theorem bare_month_retry_witness:
  "toLowerCase (trim ''may'') \<noteq> ''total'' \<and> \<not> numberRegex_test (trim ''may'') \<and>
   configFromStringAndArray True (2026, 10, 2) formats (trim ''may'') = None \<and>
   numberToString 2026 = ''2026'' \<and>
   configFromStringAndArray True (2026, 10, 2) [[MMMM, Lit CHR '' '', YYYY], [MMM, Lit CHR '' '', YYYY]]
       (trim ''may'' @ '' '' @ numberToString (fst (2026 :: int, 10 :: int, 2 :: int))) = Some (2026, 4, 1) \<and>
   classify ieee True (2026, 10, 2) ''may''
     = MonthQuery (startOf_month 2026 4) (endOf_month 2026 4) ''May 2026'' \<and>
   (1000 :: int) \<le> 2026 \<and> (2026 :: int) \<le> 9999 \<and> (8 :: nat) < 12 \<and>
   toLowerCase (trim '' SEP '') = toLowerCase (monthsShort ! 8) \<and>
   classify ieee True (2026, 10, 2) '' SEP '' = MonthQuery 1788220800000 1790812799999 ''September 2026''"
proof -
  have t: "trim ''may'' = ''may''" "trim '' SEP '' = ''SEP''"
    by (simp_all add: trim_def isWhiteSpace_def)
  have a: "toLowerCase (trim ''may'') \<noteq> ''total''" unfolding t by (simp add: toLowerCase_def)
  have b: "\<not> numberRegex_test (trim ''may'')" unfolding t by (simp add: numberRegex_test_def isDigit_def)
  have f: "configFromStringAndArray True (2026, 10, 2) formats (trim ''may'') = None"
    unfolding t by (simp add: parse_simps string_simps)
  have y: "numberToString 2026 = ''2026''" by (simp add: numberToString_def digitsOf_eval)
  have r: "configFromStringAndArray True (2026, 10, 2) [[MMMM, Lit CHR '' '', YYYY], [MMM, Lit CHR '' '', YYYY]]
       (trim ''may'' @ '' '' @ numberToString (fst (2026 :: int, 10 :: int, 2 :: int))) = Some (2026, 4, 1)"
    unfolding t by (simp add: parse_simps string_simps digitsOf_eval)
  have l: "format_MMMM_YYYY (2026, 4, 1) = ''May 2026''"
    by (simp add: format_MMMM_YYYY_def months_def zeroFill4_def digitsOf_eval)
  have s: "toLowerCase (trim '' SEP '') = toLowerCase (monthsShort ! 8)"
    unfolding t by (simp add: toLowerCase_def lowerChar_eval monthsShort_def)
  have i: "startOfDate 2026 8 1 = 1788220800000" "startOfDate 2026 9 1 = 1790812800000"
    by (simp_all add: instant_simps)
  have n: "months ! 8 @ '' '' @ numberToString 2026 = ''September 2026''"
    unfolding y by (simp add: months_def)
  note T = bare_month_retry [of "''may''" True "(2026, 10, 2)" ieee 2026 8 nm nd]
  note T' = bare_month_retry [of "'' SEP ''" True "(2026, 10, 2)" ieee 2026 8 10 2]
  have 1: "toLowerCase (trim ''may'') \<noteq> ''total'' \<and> \<not> numberRegex_test (trim ''may'') \<and>
    configFromStringAndArray True (2026, 10, 2) formats (trim ''may'') = None \<longrightarrow>
      classify ieee True (2026, 10, 2) ''may'' =
        (case configFromStringAndArray True (2026, 10, 2) [[MMMM, Lit CHR '' '', YYYY], [MMM, Lit CHR '' '', YYYY]]
                (trim ''may'' @ '' '' @ numberToString (fst (2026 :: int, 10 :: int, 2 :: int))) of
           Some (y, m, d) \<Rightarrow> MonthQuery (startOf_month y m) (endOf_month y m) (format_MMMM_YYYY (y, m, d))
         | None \<Rightarrow> Invalid)"
    using T by blast
  have 2: "classify ieee True (2026, 10, 2) ''may''
     = MonthQuery (startOf_month 2026 4) (endOf_month 2026 4) ''May 2026''"
    using 1 a b f unfolding r by (simp add: l)
  have 3: "(1000 :: int) \<le> 2026 \<and> (2026 :: int) \<le> 9999 \<and> (8 :: nat) < 12 \<and>
    (toLowerCase (trim '' SEP '') = toLowerCase (months ! 8) \<or>
     toLowerCase (trim '' SEP '') = toLowerCase (monthsShort ! 8)) \<longrightarrow>
      configFromStringAndArray True (2026, 10, 2) formats (trim '' SEP '') = None \<and>
      classify ieee True (2026, 10, 2) '' SEP '' =
        MonthQuery (startOfDate 2026 (int 8) 1) (startOfDate 2026 (int 8 + 1) 1 - 1)
          (months ! 8 @ '' '' @ numberToString 2026)"
    using T' by blast
  have 4: "classify ieee True (2026, 10, 2) '' SEP '' =
        MonthQuery (startOfDate 2026 (int 8) 1) (startOfDate 2026 (int 8 + 1) 1 - 1)
          (months ! 8 @ '' '' @ numberToString 2026)"
    using 3 s by simp
  have 5: "classify ieee True (2026, 10, 2) '' SEP '' = MonthQuery 1788220800000 1790812799999 ''September 2026''"
    using 4 unfolding n by (simp add: i)
  have 6: "(1000 :: int) \<le> 2026" "(2026 :: int) \<le> 9999" "(8 :: nat) < 12" by simp_all
  show ?thesis using a b f y r 2 6 s 5 by (intro conjI)
qed

section \<open>Classification is a function of the body and the year\<close>

text \<open>
  C9. The classification is a total function of the body and of the year the clock
  shows: it yields one intent, and a run under a clock that shows the same year (any
  month, any day) with a datastore that answers differently classifies the body the
  same and makes the same request. No body matches two of the three rules (the
  keyword, the number, the date), so no body is ambiguous between two intents.
\<close>

theorem classification_pure:
  "fst now' = fst (clock e) \<Longrightarrow>
     classify (number e) (noLeadingZero e) now' b
       = classify (number e) (noLeadingZero e) (clock e) b \<and>
     queries (fst (post_sms (e\<lparr>clock := now', supabase := db'\<rparr>) req))
       = queries (fst (post_sms e req)) \<and>
     \<not> (toLowerCase (trim b) = ''total'' \<and> numberRegex_test (trim b)) \<and>
     \<not> (toLowerCase (trim b) = ''total'' \<and> dateQuery (noLeadingZero e) (clock e) (trim b) \<noteq> None) \<and>
     \<not> (numberRegex_test (trim b) \<and> dateQuery (noLeadingZero e) (clock e) (trim b) \<noteq> None)"
proof -
  assume "fst now' = fst (clock e)"
  then have "dateQuery (noLeadingZero e) now' (trim b) = dateQuery (noLeadingZero e) (clock e) (trim b)"
    for b by (rule dateQuery_clock)
  then have c: "classify (number e) (noLeadingZero e) now' b
       = classify (number e) (noLeadingZero e) (clock e) b" for b
    by (simp add: classify_def Let_def)
  have q: "queries (fst (post_sms (e\<lparr>clock := now', supabase := db'\<rparr>) req))
       = queries (fst (post_sms e req))"
    unfolding queries_by_intent using c by (cases "Body req") simp_all
  have x: "\<not> (toLowerCase (trim b) = ''total'' \<and> numberRegex_test (trim b))"
    "\<not> (toLowerCase (trim b) = ''total'' \<and> dateQuery (noLeadingZero e) (clock e) (trim b) \<noteq> None)"
    "\<not> (numberRegex_test (trim b) \<and> dateQuery (noLeadingZero e) (clock e) (trim b) \<noteq> None)"
    using numeric_not_total [of "trim b"]
      total_not_date [of "trim b" "noLeadingZero e" "clock e"]
      numeric_not_date [of "trim b" "noLeadingZero e" "clock e"]
    by auto
  show ?thesis using c [of b] q x by simp
qed

theorem classification_pure_witness:
  "classify ieee True (2024, 0, 1) ''March''
     = classify ieee True (2024, 5, 15) ''March'' \<and>
   classify ieee True (2024, 5, 15) ''March''
     = MonthQuery 1709251200000 1711929599999 ''March 2024'' \<and>
   queries (fst (post_sms (exampleEnv Rejected\<lparr>clock := (2024, 0, 1), supabase := (\<lambda>q. Resolved None (Some []))\<rparr>)
       \<lparr>Body = Some ''March'', From = None\<rparr>))
     = queries (fst (post_sms (exampleEnv Rejected) \<lparr>Body = Some ''March'', From = None\<rparr>))"
proof -
  have c: "dateQuery True (2024, 5, 15) ''March'' = Some (2024, 2, 1)"
    by (simp add: parse_simps string_simps digitsOf_eval)
  have s: "startOf_month 2024 2 = 1709251200000" "endOf_month 2024 2 = 1711929599999"
    by (simp_all add: instant_simps)
  have l: "format_MMMM_YYYY (2024, 2, 1) = ''March 2024''"
    by (simp add: format_MMMM_YYYY_def months_def zeroFill4_def digitsOf_eval)
  have m: "classify ieee True (2024, 5, 15) ''March''
     = MonthQuery 1709251200000 1711929599999 ''March 2024''"
    by (simp add: classify_def c s l string_simps)
  show ?thesis
    using m classification_pure [of "(2024, 0, 1)" "exampleEnv Rejected" "''March''"
        "\<lambda>q. Resolved None (Some [])" "\<lparr>Body = Some ''March'', From = None\<rparr>"]
    by (simp add: exampleEnv_def)
qed

section \<open>The two triggers of the daily prompt\<close>

text \<open>
  C8, as the two triggers have it. With a destination configured, each trigger hands
  exactly one message, the fixed prompt, to the messaging interface. When sending fails,
  the endpoint GET /send-sms answers with status 500; the callback scheduled in process
  logs the failure and ends normally.
\<close>

theorem daily_prompt:
  "\<not> falsy (USER_PHONE_NUMBER t) \<Longrightarrow>
     msg_body (prompt t (the (USER_PHONE_NUMBER t))) = ''How much cash did you make today?'' \<and>
     msg_to (prompt t (the (USER_PHONE_NUMBER t))) = the (USER_PHONE_NUMBER t) \<and>
     fst (snd (get_send_sms t)) = [prompt t (the (USER_PHONE_NUMBER t))] \<and>
     (status (fst (get_send_sms t)) =
        (case messages_create t (prompt t (the (USER_PHONE_NUMBER t))) of
           None \<Rightarrow> 500 | Some sid \<Rightarrow> 200)) \<and>
     fst (snd (cron_callback t)) = [prompt t (the (USER_PHONE_NUMBER t))] \<and>
     fst (cron_callback t) = None \<and>
     (snd (snd (cron_callback t)) =
        (case messages_create t (prompt t (the (USER_PHONE_NUMBER t))) of
           None \<Rightarrow> [ErrorSending] | Some sid \<Rightarrow> [ScheduledSent sid]))"
  by (simp add: get_send_sms_def cron_callback_def prompt_def Let_def split: option.splits)

theorem daily_prompt_witness:
  "\<not> falsy (USER_PHONE_NUMBER (exampleTrigger None)) \<and>
   fst (snd (get_send_sms (exampleTrigger None)))
     = [\<lparr>msg_body = ''How much cash did you make today?'', msg_from = Some ''+15550199'',
         msg_to = ''+15550100''\<rparr>] \<and>
   status (fst (get_send_sms (exampleTrigger None))) = 500 \<and>
   status (fst (get_send_sms (exampleTrigger (Some ''SM1'')))) = 200 \<and>
   snd (snd (cron_callback (exampleTrigger None))) = [ErrorSending]"
proof -
  have f: "\<not> falsy (USER_PHONE_NUMBER (exampleTrigger r))" for r
    by (simp add: falsy_def exampleTrigger_def)
  show ?thesis
    using f [of None] daily_prompt [OF f, of None] daily_prompt [OF f, of "Some ''SM1''"]
    by (simp add: exampleTrigger_def prompt_def)
qed

text \<open>
  C8 as it is stated fails on the callback scheduled in process: when the provider
  rejects the message, the callback ends normally, with the failure in the log only.
\<close>

theorem cron_callback_counterexample:
  "messages_create (exampleTrigger None) (prompt (exampleTrigger None) ''+15550100'') = None \<and>
   cron_callback (exampleTrigger None)
     = (None, [prompt (exampleTrigger None) ''+15550100''], [ErrorSending])"
  by (simp add: cron_callback_def exampleTrigger_def falsy_def prompt_def)

end
